theory Spec2Isabelle
  imports Main "HOL-Library.Product_Lexorder" "HOL-Library.Multiset"
begin

section \<open>JavaScript values and responses\<close>

text \<open>
  Strings are lists of \<^typ>\<open>char\<close> (one \<^typ>\<open>char\<close> per code unit below 256; \<open>worker.js\<close>
  itself is pure ASCII). A JSON field of a request body that is absent is modelled as the
  empty string: the handlers only ever test such fields with \<open>!field\<close>, which is true for
  \<open>undefined\<close>, \<open>null\<close> and \<open>""\<close> alike. Flags such as \<open>isPetition\<close> are modelled by
  their truthiness.
\<close>

datatype jvalue =
  JNull
  | JBool bool
  | JNum int
  | JStr string
  | JArr "jvalue list"
  | JObj "(string \<times> jvalue) list"

record http_response =
  status :: nat
  body :: "(string \<times> jvalue) list"

text \<open>\<open>createResponse(body, status = 200)\<close>; the headers are constants and are left out.\<close>

definition createResponse :: "(string \<times> jvalue) list \<Rightarrow> nat \<Rightarrow> http_response" where
  "createResponse b st = \<lparr>status = st, body = b\<rparr>"

text \<open>\<open>x || 'undefined'\<close> on a string field.\<close>

definition orUndefined :: "string \<Rightarrow> string" where
  "orUndefined x = (if x = [] then ''undefined'' else x)"

section \<open>The entity store\<close>

text \<open>
  The tables of the D1 database, each a list of rows in table order. The schema is not part
  of the repository; the columns are those the handlers read and write. \<open>is_petition\<close>,
  \<open>verified\<close> (stored as 1/0) are booleans. No uniqueness constraint is assumed on any column.
\<close>

record user_row =
  user_id :: string
  user_name :: string

record proposal_row =
  proposal_id :: string
  author_id :: string
  proposal_text :: string
  proposal_timestamp :: int
  trending :: bool
  meme_url :: "string option"

record comment_row =
  comment_id :: string
  comment_proposal_id :: string
  comment_user_id :: string
  comment_text :: string
  comment_timestamp :: int

record vote_row =
  vote_id :: nat
  vote_proposal_id :: string
  vote_user_id :: string
  vote_type :: string
  vote_timestamp :: int
  is_petition :: bool

record comment_vote_row =
  cvote_id :: string
  cvote_comment_id :: string
  cvote_user_id :: string
  cvote_type :: string
  cvote_timestamp :: int

record petition_detail_row =
  pd_user_id :: string
  pd_proposal_id :: string
  full_name :: string
  address :: string
  postcode :: string
  dob :: string
  email :: string
  pd_timestamp :: int
  verified :: bool

record store =
  users :: "user_row list"
  proposals :: "proposal_row list"
  comments :: "comment_row list"
  votes :: "vote_row list"
  comment_votes :: "comment_vote_row list"
  petition_details :: "petition_detail_row list"

text \<open>\<open>.first()\<close> of a \<open>SELECT ... WHERE\<close>: the first matching row in table order, or null.\<close>

definition first_where :: "('a \<Rightarrow> bool) \<Rightarrow> 'a list \<Rightarrow> 'a option" where
  "first_where P rows = List.find P rows"

text \<open>
  \<open>INSERT INTO votes\<close> names no id: the database assigns it. It is modelled as SQLite's
  rowid, one more than the largest id in the table.
\<close>

definition next_rowid :: "vote_row list \<Rightarrow> nat" where
  "next_rowid rows = Suc (fold max (map vote_id rows) 0)"

section \<open>Vote toggle: \<open>createOrUpdateVote\<close>\<close>

record petition_payload =
  fullName :: string
  pAddress :: string
  pPostcode :: string
  pDob :: string
  pEmail :: string

record vote_request =
  proposalId :: string
  userId :: string
  voteType :: string
  isPetition :: bool
  petitionDetails :: "petition_payload option"

text \<open>The \<open>console.log\<close> line of the branch that ran (the two diagnostic lines before the
  branch are not recorded).\<close>

datatype log_event =
  DeletedVote nat
  | UpdatedVote nat string
  | CreatedVote nat
  | StoredPetition string string
  | UpdatedPetition string string

record vote_outcome =
  db :: store
  response :: http_response
  logged :: "log_event list"

definition existingVote :: "store \<Rightarrow> string \<Rightarrow> string \<Rightarrow> vote_row option" where
  "existingVote s pid uid =
     first_where (\<lambda>v. vote_proposal_id v = pid \<and> vote_user_id v = uid) (votes s)"

text \<open>The petition sub-operation, run after the vote mutation on store \<open>s\<close>.\<close>

definition processPetition ::
  "int \<Rightarrow> store \<Rightarrow> string \<Rightarrow> string \<Rightarrow> petition_payload \<Rightarrow> log_event list \<Rightarrow>
     (vote_outcome + store \<times> log_event list)" where
  "processPetition now s pid uid d lg =
     (if fullName d = [] \<or> pAddress d = [] \<or> pPostcode d = [] \<or> pDob d = [] \<or> pEmail d = []
      then Inl \<lparr>db = s,
                response = createResponse [(''error'', JStr ''Missing required petition details'')] 400,
                logged = lg\<rparr>
      else
        (case first_where (\<lambda>r. pd_user_id r = uid \<and> pd_proposal_id r = pid) (petition_details s) of
           None \<Rightarrow>
             Inr (s\<lparr>petition_details := petition_details s @
                      [\<lparr>pd_user_id = uid, pd_proposal_id = pid, full_name = fullName d,
                        address = pAddress d, postcode = pPostcode d, dob = pDob d,
                        email = pEmail d, pd_timestamp = now, verified = True\<rparr>]\<rparr>,
                  lg @ [StoredPetition uid pid])
         | Some _ \<Rightarrow>
             Inr (s\<lparr>petition_details :=
                      map (\<lambda>r. if pd_user_id r = uid \<and> pd_proposal_id r = pid
                                then r\<lparr>full_name := fullName d, address := pAddress d,
                                       postcode := pPostcode d, dob := pDob d, email := pEmail d,
                                       pd_timestamp := now, verified := True\<rparr>
                                else r) (petition_details s)\<rparr>,
                  lg @ [UpdatedPetition uid pid])))"

text \<open>What follows the vote mutation: the petition sub-operation when
  \<open>voteType === 'upvote' && isPetition && petitionDetails\<close>, then the success response.\<close>

definition voteSuccess :: "store \<Rightarrow> vote_request \<Rightarrow> log_event list \<Rightarrow> vote_outcome" where
  "voteSuccess s req lg =
     \<lparr>db = s,
      response = createResponse
        [(''proposalId'', JStr (proposalId req)), (''userId'', JStr (userId req)),
         (''voteType'', JStr (voteType req)),
         (''isPetition'', JBool (voteType req = ''upvote'' \<and> isPetition req)),
         (''petitionVerified'', JBool (voteType req = ''upvote'' \<and> isPetition req))] 200,
      logged = lg\<rparr>"

definition finishVote :: "int \<Rightarrow> store \<Rightarrow> vote_request \<Rightarrow> log_event list \<Rightarrow> vote_outcome" where
  "finishVote now s req lg =
     (case (if voteType req = ''upvote'' \<and> isPetition req then petitionDetails req else None) of
        Some d \<Rightarrow>
          (case processPetition now s (proposalId req) (userId req) d lg of
             Inl failed \<Rightarrow> failed
           | Inr (s', lg') \<Rightarrow> voteSuccess s' req lg')
      | None \<Rightarrow> voteSuccess s req lg)"

text \<open>\<open>now\<close> is the value of \<open>Date.now()\<close>. Database calls are assumed not to throw (the
  500 branches are the environment's failures and have no counterpart here).\<close>

definition createOrUpdateVote :: "int \<Rightarrow> store \<Rightarrow> vote_request \<Rightarrow> vote_outcome" where
  "createOrUpdateVote now s req =
    (let pid = proposalId req; uid = userId req; vt = voteType req;
         petitionFlag = (vt = ''upvote'' \<and> isPetition req)
     in
     if pid = [] \<or> uid = [] \<or> vt = [] then
       \<lparr>db = s,
        response = createResponse
          [(''error'', JStr ''Missing required fields''),
           (''received'', JObj [(''proposalId'', JStr pid), (''userId'', JStr uid),
                               (''voteType'', JStr (orUndefined vt))])] 400,
        logged = []\<rparr>
     else if vt \<noteq> ''upvote'' \<and> vt \<noteq> ''downvote'' then
       \<lparr>db = s,
        response = createResponse
          [(''error'', JStr ''Invalid vote type''), (''voteType'', JStr vt),
           (''allowedValues'', JArr [JStr ''upvote'', JStr ''downvote''])] 400,
        logged = []\<rparr>
     else if first_where (\<lambda>u. user_id u = uid) (users s) = None then
       \<lparr>db = s,
        response = createResponse
          [(''error'', JStr ''User does not exist''), (''userId'', JStr uid)] 404,
        logged = []\<rparr>
     else if first_where (\<lambda>p. proposal_id p = pid) (proposals s) = None then
       \<lparr>db = s,
        response = createResponse
          [(''error'', JStr ''Proposal does not exist''), (''proposalId'', JStr pid)] 404,
        logged = []\<rparr>
     else
       (case existingVote s pid uid of
          Some ev \<Rightarrow>
            if vote_type ev = vt then
              \<lparr>db = s\<lparr>votes := filter (\<lambda>v. vote_id v \<noteq> vote_id ev) (votes s)\<rparr>,
               response = createResponse
                 [(''proposalId'', JStr pid), (''userId'', JStr uid), (''voteType'', JNull)] 200,
               logged = [DeletedVote (vote_id ev)]\<rparr>
            else
              finishVote now
                (s\<lparr>votes := map (\<lambda>v. if vote_id v = vote_id ev
                                       then v\<lparr>vote_type := vt, vote_timestamp := now,
                                              is_petition := petitionFlag\<rparr>
                                       else v) (votes s)\<rparr>)
                req [UpdatedVote (vote_id ev) vt]
        | None \<Rightarrow>
            finishVote now
              (s\<lparr>votes := votes s @
                   [\<lparr>vote_id = next_rowid (votes s), vote_proposal_id = pid, vote_user_id = uid,
                     vote_type = vt, vote_timestamp = now, is_petition = petitionFlag\<rparr>]\<rparr>)
              req [CreatedVote (next_rowid (votes s))]))"

section \<open>Comment-vote toggle: \<open>createOrUpdateCommentVote\<close>\<close>

record comment_vote_request =
  cv_commentId :: string
  cv_userId :: string
  cv_voteType :: string

text \<open>
  \<open>freshId\<close> is the id the handler generates for a new row,
  \<open>'comment_vote_' + Date.now() + '_' + Math.random().toString(36).substr(2, 5)\<close>; \<open>now\<close> is
  \<open>Date.now()\<close>. The branch that ran is returned in the response as \<open>action\<close>.
\<close>

definition existingCommentVote :: "store \<Rightarrow> string \<Rightarrow> string \<Rightarrow> comment_vote_row option" where
  "existingCommentVote s cid uid =
     first_where (\<lambda>v. cvote_comment_id v = cid \<and> cvote_user_id v = uid) (comment_votes s)"

definition createOrUpdateCommentVote ::
  "int \<Rightarrow> string \<Rightarrow> store \<Rightarrow> comment_vote_request \<Rightarrow> store \<times> http_response" where
  "createOrUpdateCommentVote now freshId s req =
    (let cid = cv_commentId req; uid = cv_userId req; vt = cv_voteType req
     in
     if cid = [] \<or> uid = [] \<or> vt = [] then
       (s, createResponse
          [(''error'', JStr ''Missing required fields''),
           (''received'', JObj [(''commentId'', JStr cid), (''userId'', JStr uid),
                               (''voteType'', JStr (orUndefined vt))])] 400)
     else if vt \<noteq> ''upvote'' \<and> vt \<noteq> ''downvote'' then
       (s, createResponse
          [(''error'', JStr ''Invalid vote type''), (''voteType'', JStr vt),
           (''allowedValues'', JArr [JStr ''upvote'', JStr ''downvote''])] 400)
     else if first_where (\<lambda>u. user_id u = uid) (users s) = None then
       (s, createResponse
          [(''error'', JStr ''User does not exist''), (''userId'', JStr uid)] 404)
     else if first_where (\<lambda>c. comment_id c = cid) (comments s) = None then
       (s, createResponse
          [(''error'', JStr ''Comment does not exist''), (''commentId'', JStr cid)] 404)
     else
       (case existingCommentVote s cid uid of
          Some ev \<Rightarrow>
            if cvote_type ev = vt then
              (s\<lparr>comment_votes := filter (\<lambda>v. cvote_id v \<noteq> cvote_id ev) (comment_votes s)\<rparr>,
               createResponse
                 [(''commentId'', JStr cid), (''userId'', JStr uid), (''voteType'', JNull),
                  (''action'', JStr ''removed'')] 200)
            else
              (s\<lparr>comment_votes :=
                   map (\<lambda>v. if cvote_id v = cvote_id ev
                             then v\<lparr>cvote_type := vt, cvote_timestamp := now\<rparr>
                             else v) (comment_votes s)\<rparr>,
               createResponse
                 [(''commentId'', JStr cid), (''userId'', JStr uid), (''voteType'', JStr vt),
                  (''action'', JStr ''updated'')] 200)
        | None \<Rightarrow>
            (s\<lparr>comment_votes := comment_votes s @
                 [\<lparr>cvote_id = freshId, cvote_comment_id = cid, cvote_user_id = uid,
                   cvote_type = vt, cvote_timestamp = now\<rparr>]\<rparr>,
             createResponse
               [(''commentId'', JStr cid), (''userId'', JStr uid), (''voteType'', JStr vt),
                (''action'', JStr ''created'')] 200)))"

section \<open>The uniqueness invariant\<close>

text \<open>At most one row per key pair, for each of the three keyed tables.\<close>

definition vote_key :: "vote_row \<Rightarrow> string \<times> string" where
  "vote_key v = (vote_proposal_id v, vote_user_id v)"

definition cvote_key :: "comment_vote_row \<Rightarrow> string \<times> string" where
  "cvote_key v = (cvote_comment_id v, cvote_user_id v)"

definition pd_key :: "petition_detail_row \<Rightarrow> string \<times> string" where
  "pd_key r = (pd_proposal_id r, pd_user_id r)"

definition unique_votes :: "store \<Rightarrow> bool" where
  "unique_votes s = distinct (map vote_key (votes s))"

definition unique_comment_votes :: "store \<Rightarrow> bool" where
  "unique_comment_votes s = distinct (map cvote_key (comment_votes s))"

definition unique_petition_details :: "store \<Rightarrow> bool" where
  "unique_petition_details s = distinct (map pd_key (petition_details s))"

definition store_invariant :: "store \<Rightarrow> bool" where
  "store_invariant s = (unique_votes s \<and> unique_comment_votes s \<and> unique_petition_details s)"

text \<open>The rows of the votes table for one (proposal, user) pair.\<close>

definition votes_of :: "store \<Rightarrow> string \<Rightarrow> string \<Rightarrow> vote_row list" where
  "votes_of s pid uid = filter (\<lambda>v. vote_proposal_id v = pid \<and> vote_user_id v = uid) (votes s)"

definition user_exists :: "store \<Rightarrow> string \<Rightarrow> bool" where
  "user_exists s uid = (\<exists>u \<in> set (users s). user_id u = uid)"

definition proposal_exists :: "store \<Rightarrow> string \<Rightarrow> bool" where
  "proposal_exists s pid = (\<exists>p \<in> set (proposals s). proposal_id p = pid)"

text \<open>The value of a field of a JSON response body.\<close>

definition field :: "http_response \<Rightarrow> string \<Rightarrow> jvalue option" where
  "field r k = map_of (body r) k"

text \<open>A request that passes the handler's validation and whose user and proposal exist.\<close>

definition valid_vote_request :: "store \<Rightarrow> vote_request \<Rightarrow> bool" where
  "valid_vote_request s req =
     (proposalId req \<noteq> [] \<and> userId req \<noteq> [] \<and>
      (voteType req = ''upvote'' \<or> voteType req = ''downvote'') \<and>
      user_exists s (userId req) \<and> proposal_exists s (proposalId req))"

subsection \<open>Sequential executions\<close>

text \<open>The operations that write to the three keyed tables, each with the values it reads
  from its environment, and their execution one after the other.\<close>

datatype store_op =
  CastVote int vote_request
  | CastCommentVote int string comment_vote_request

fun apply_op :: "store \<Rightarrow> store_op \<Rightarrow> store" where
  "apply_op s (CastVote now req) = db (createOrUpdateVote now s req)"
| "apply_op s (CastCommentVote now freshId req) = fst (createOrUpdateCommentVote now freshId s req)"

fun run_ops :: "store \<Rightarrow> store_op list \<Rightarrow> store" where
  "run_ops s [] = s"
| "run_ops s (op # ops) = run_ops (apply_op s op) ops"

subsection \<open>A concrete store and requests\<close>

definition demo_store :: store where
  "demo_store =
     \<lparr>users = [\<lparr>user_id = ''u1'', user_name = ''Citizen 1''\<rparr>,
               \<lparr>user_id = ''u2'', user_name = ''Citizen 2''\<rparr>],
      proposals = [\<lparr>proposal_id = ''p1'', author_id = ''u2'', proposal_text = ''Free parking'',
                    proposal_timestamp = 1000, trending = False, meme_url = None\<rparr>],
      comments = [\<lparr>comment_id = ''c1'', comment_proposal_id = ''p1'', comment_user_id = ''u2'',
                   comment_text = ''Yes'', comment_timestamp = 1500\<rparr>],
      votes = [\<lparr>vote_id = 1, vote_proposal_id = ''p1'', vote_user_id = ''u1'',
                vote_type = ''upvote'', vote_timestamp = 2000, is_petition = False\<rparr>,
               \<lparr>vote_id = 2, vote_proposal_id = ''p1'', vote_user_id = ''u2'',
                vote_type = ''downvote'', vote_timestamp = 2500, is_petition = False\<rparr>],
      comment_votes = [],
      petition_details = []\<rparr>"

definition cast :: "string \<Rightarrow> string \<Rightarrow> string \<Rightarrow> vote_request" where
  "cast pid uid vt =
     \<lparr>proposalId = pid, userId = uid, voteType = vt, isPetition = False, petitionDetails = None\<rparr>"

definition sign :: "string \<Rightarrow> string \<Rightarrow> petition_payload \<Rightarrow> vote_request" where
  "sign pid uid d =
     \<lparr>proposalId = pid, userId = uid, voteType = ''upvote'', isPetition = True,
      petitionDetails = Some d\<rparr>"

definition full_payload :: petition_payload where
  "full_payload = \<lparr>fullName = ''A Citizen'', pAddress = ''1 High St'', pPostcode = ''2000'',
                   pDob = ''1990-01-01'', pEmail = ''a@example.org''\<rparr>"

text \<open>A store that breaks the invariant: two rows for the pair (\<open>p1\<close>, \<open>u1\<close>).\<close>

definition duplicate_store :: store where
  "duplicate_store =
     demo_store\<lparr>votes :=
       [\<lparr>vote_id = 1, vote_proposal_id = ''p1'', vote_user_id = ''u1'',
         vote_type = ''downvote'', vote_timestamp = 2000, is_petition = False\<rparr>,
        \<lparr>vote_id = 2, vote_proposal_id = ''p1'', vote_user_id = ''u1'',
         vote_type = ''downvote'', vote_timestamp = 2500, is_petition = False\<rparr>]\<rparr>"

text \<open>Another one: a downvote row and an upvote row for the pair (\<open>p1\<close>, \<open>u1\<close>).\<close>

definition mixed_store :: store where
  "mixed_store =
     demo_store\<lparr>votes :=
       [\<lparr>vote_id = 1, vote_proposal_id = ''p1'', vote_user_id = ''u1'',
         vote_type = ''downvote'', vote_timestamp = 2000, is_petition = False\<rparr>,
        \<lparr>vote_id = 2, vote_proposal_id = ''p1'', vote_user_id = ''u1'',
         vote_type = ''upvote'', vote_timestamp = 2500, is_petition = False\<rparr>]\<rparr>"

section \<open>Share-image renderer\<close>

subsection \<open>JavaScript string helpers\<close>

definition nl :: string where
  "nl = [CHR 0x0A]"

text \<open>Number to string, for integers (decimal; exponent notation of huge numbers is not modelled).\<close>

fun showNat :: "nat \<Rightarrow> string" where
  "showNat n = (if n < 10 then [char_of (48 + n)] else showNat (n div 10) @ [char_of (48 + n mod 10)])"

declare showNat.simps [simp del]

definition showInt :: "int \<Rightarrow> string" where
  "showInt i = (if i < 0 then ''-'' @ showNat (nat (- i)) else showNat (nat i))"

text \<open>\<open>s.split(c)\<close> for a one-character separator: never empty; \<open>"".split(' ')\<close> is \<open>[""]\<close>.\<close>

fun split_on :: "char \<Rightarrow> string \<Rightarrow> string list" where
  "split_on c [] = [[]]"
| "split_on c (x # xs) =
     (if x = c then [] # split_on c xs
      else (case split_on c xs of w # ws \<Rightarrow> (x # w) # ws | [] \<Rightarrow> [[x]]))"

text \<open>\<open>s.slice(0, -n)\<close> and \<open>s.slice(-n)\<close>.\<close>

definition sliceDropLast :: "nat \<Rightarrow> string \<Rightarrow> string" where
  "sliceDropLast n s = take (length s - n) s"

definition sliceLast :: "nat \<Rightarrow> string \<Rightarrow> string" where
  "sliceLast n s = drop (length s - n) s"

text \<open>\<open>s.replace(/c/g, r)\<close> for a single character \<open>c\<close>.\<close>

definition replaceAll :: "char \<Rightarrow> string \<Rightarrow> string \<Rightarrow> string" where
  "replaceAll c r s = concat (map (\<lambda>x. if x = c then r else [x]) s)"

subsection \<open>\<open>escapeHTML\<close>\<close>

definition escapeHTML :: "string \<Rightarrow> string" where
  \<open>escapeHTML text =
     replaceAll (CHR 0x27) ''&#039;''
       (replaceAll (CHR 0x22) ''&quot;''
         (replaceAll CHR ''>'' ''&gt;''
           (replaceAll CHR ''<'' ''&lt;''
             (replaceAll CHR ''&'' ''&amp;'' text))))\<close>


subsection \<open>\<open>generateSVGTextLines\<close>\<close>

text \<open>The \<open>for (const word of words)\<close> loop, on the pair \<open>(lines, currentLine)\<close>.\<close>

fun wrapWords :: "int \<Rightarrow> string list \<Rightarrow> string list \<Rightarrow> string \<Rightarrow> string list \<times> string" where
  "wrapWords charsPerLine [] lines currentLine = (lines, currentLine)"
| "wrapWords charsPerLine (word # rest) lines currentLine =
     (let testLine = (if currentLine \<noteq> [] then currentLine @ '' '' @ word else word)
      in if int (length testLine) \<le> charsPerLine
         then wrapWords charsPerLine rest lines testLine
         else wrapWords charsPerLine rest (lines @ [currentLine]) word)"

text \<open>\<open>lines\<close> after the loop and the final \<open>if (currentLine) lines.push(currentLine)\<close>;
  \<open>charsPerLine = Math.floor(width / avgCharWidth)\<close> with \<open>avgCharWidth = 22\<close>.\<close>

definition wrappedLines :: "string \<Rightarrow> int \<Rightarrow> string list" where
  "wrappedLines text width =
     (case wrapWords (width div 22) (split_on CHR '' '' text) [] [] of
        (lines, currentLine) \<Rightarrow> if currentLine \<noteq> [] then lines @ [currentLine] else lines)"

definition limitedLines :: "string \<Rightarrow> int \<Rightarrow> string list" where
  "limitedLines text width =
     (let lines = wrappedLines text width; limited = take 6 lines
      in if length lines > 6
         then limited[5 := sliceDropLast 3 (limited ! 5) @ ''...'']
         else limited)"

definition svgTextElement :: "int \<Rightarrow> int \<Rightarrow> string \<Rightarrow> string" where
  \<open>svgTextElement x lineY content =
     ''<text x="'' @ showInt x @ ''" y="'' @ showInt lineY
       @ ''" font-family="'Roboto Mono', monospace" font-size="36" fill="#ffffff">''
       @ content @ ''</text>'' @ nl\<close>

text \<open>The \<open>forEach((line, index) => ...)\<close> loop appending to \<open>svgTextElements\<close>;
  \<open>lineHeight = 46\<close>.\<close>

fun renderLines :: "int \<Rightarrow> int \<Rightarrow> nat \<Rightarrow> string list \<Rightarrow> string \<Rightarrow> string" where
  "renderLines x y index [] svgTextElements = svgTextElements"
| "renderLines x y index (line # rest) svgTextElements =
     renderLines x y (Suc index) rest
       (svgTextElements @ svgTextElement x (y + int index * 46) (escapeHTML line))"

definition generateSVGTextLines :: "string \<Rightarrow> int \<Rightarrow> int \<Rightarrow> int \<Rightarrow> string" where
  "generateSVGTextLines text x y width = renderLines x y 0 (limitedLines text width) []"

subsection \<open>\<open>generatePetitionSVG\<close>\<close>

text \<open>
  The proposal object handed to the renderer. A missing or null field is the empty string,
  respectively 0: the renderer reads each field through \<open>field || fallback\<close>, which treats
  them alike. \<open>author_name\<close> is part of the row but is not read by the renderer.
\<close>

record svg_proposal =
  sp_id :: string
  sp_text :: string
  sp_timestamp :: int
  sp_author_name :: string
  sp_upvotes :: int
  sp_downvotes :: int

text \<open>
  The template literal \<open>svgTemplate\<close>, as a function of the values interpolated into it, in
  three parts: the text before \<open>${generateSVGTextLines(petitionText, 120, 220, 960)}\<close>, the
  text lines, and the text after them.
\<close>

definition svgTemplateHead :: string where
  \<open>svgTemplateHead =
     concat [
      ''<svg xmlns="http://www.w3.org/2000/svg" viewBox="0 0 1200 630" width="1200" height="630">'', nl,
      ''  <!-- Background -->'', nl,
      ''  <rect width="1200" height="630" fill="#000000" />'', nl,
      ''  '', nl,
      ''  <!-- Border frame with glowing effect -->'', nl,
      ''  <rect x="10" y="10" width="1180" height="610" fill="none" stroke="#ff0099" stroke-width="4" rx="0" />'', nl,
      ''  <rect x="20" y="20" width="1160" height="590" fill="rgba(0, 0, 0, 0.8)" stroke="#ff0099" stroke-width="1" rx="0" '', nl,
      ''        style="filter: drop-shadow(0 0 10px #ff0099)" />'', nl,
      ''  '', nl,
      ''  <!-- RADICAL Header -->'', nl,
      ''  <text x="600" y="90" font-family="'Roboto Mono', monospace" font-size="72" font-weight="700" text-anchor="middle" '', nl,
      ''        fill="#ff0099" style="text-transform: uppercase;">RADICAL</text>'', nl,
      ''  '', nl,
      ''  <!-- Tagline -->'', nl,
      ''  <rect x="450" y="110" width="300" height="36" fill="#ff0099" />'', nl,
      ''  <text x="600" y="135" font-family="'Roboto Mono', monospace" font-size="20" font-weight="600" text-anchor="middle" '', nl,
      ''        fill="#000000" style="text-transform: uppercase;">VIBE, VOTE, VETO</text>'', nl,
      ''  '', nl,
      ''  <!-- Petition text container -->'', nl,
      ''  <rect x="100" y="180" width="1000" height="280" fill="rgba(17, 17, 17, 0.7)" stroke="#333333" stroke-width="1" />'', nl,
      ''  '', nl,
      ''  <!-- Petition text (dynamically generated) -->'', nl,
      ''  '']\<close>

definition svgTemplateTail ::
  "int \<Rightarrow> int \<Rightarrow> string \<Rightarrow> string \<Rightarrow> string \<Rightarrow> string \<Rightarrow> string" where
  \<open>svgTemplateTail upvotes downvotes netVotesColor netVotesDisplay svgProposalId timestamp =
     concat [
      nl,
      ''  '', nl,
      ''  <!-- Vote statistics -->'', nl,
      ''  <g transform="translate(200, 510)">'', nl,
      ''    <!-- Upvotes -->'', nl,
      ''    <text x="0" y="0" font-family="'Roboto Mono', monospace" font-size="24" fill="#ff0099"></text>'', nl,
      ''    <text x="30" y="0" font-family="'Roboto Mono', monospace" font-size="24" fill="#ffffff">'', showInt upvotes, ''</text>'', nl,
      ''    '', nl,
      ''    <!-- Downvotes -->'', nl,
      ''    <text x="120" y="0" font-family="'Roboto Mono', monospace" font-size="24" fill="#ff0099"></text>'', nl,
      ''    <text x="150" y="0" font-family="'Roboto Mono', monospace" font-size="24" fill="#ffffff">'', showInt downvotes, ''</text>'', nl,
      ''    '', nl,
      ''    <!-- Net votes -->'', nl,
      ''    <text x="240" y="0" font-family="'Roboto Mono', monospace" font-size="24" fill="#ff0099">NET:</text>'', nl,
      ''    <text x="300" y="0" font-family="'Roboto Mono', monospace" font-size="24" fill="'', netVotesColor, ''">'', netVotesDisplay, ''</text>'', nl,
      ''  </g>'', nl,
      ''  '', nl,
      ''  <!-- Timestamp and ID -->'', nl,
      ''  <text x="600" y="560" font-family="'Roboto Mono', monospace" font-size="18" fill="#aaaaaa" text-anchor="middle">'', nl,
      ''    Petition ID: '', svgProposalId, ''  Created: '', timestamp, nl,
      ''  </text>'', nl,
      ''  '', nl,
      ''  <!-- Radical Logo / Brand (right corner) -->'', nl,
      ''  <g transform="translate(940, 460)">'', nl,
      ''    <!-- Pink square for the logo -->'', nl,
      ''    <rect x="0" y="0" width="120" height="120" fill="#111111" stroke="#ff0099" stroke-width="2" />'', nl,
      ''    <text x="60" y="50" font-family="'Roboto Mono', monospace" font-size="16" fill="#ffffff" text-anchor="middle">RADICAL</text>'', nl,
      ''    <text x="60" y="75" font-family="'Roboto Mono', monospace" font-size="14" fill="#ff0099" text-anchor="middle">PETITION</text>'', nl,
      ''    <text x="60" y="100" font-family="'Roboto Mono', monospace" font-size="12" fill="#aaaaaa" text-anchor="middle">#'', sliceLast 6 svgProposalId, ''</text>'', nl,
      ''  </g>'', nl,
      ''  '', nl,
      ''  <!-- URL -->'', nl,
      ''  <text x="600" y="600" font-family="'Roboto Mono', monospace" font-size="20" fill="#ff0099" text-anchor="middle" '', nl,
      ''        style="text-transform: uppercase;">theradicalparty.com</text>'', nl,
      ''</svg>'']\<close>

definition svgTemplate ::
  "string \<Rightarrow> int \<Rightarrow> int \<Rightarrow> string \<Rightarrow> string \<Rightarrow> string \<Rightarrow> string \<Rightarrow> string" where
  \<open>svgTemplate petitionText upvotes downvotes netVotesColor netVotesDisplay svgProposalId timestamp =
     svgTemplateHead
     @ generateSVGTextLines petitionText 120 220 960
     @ svgTemplateTail upvotes downvotes netVotesColor netVotesDisplay svgProposalId timestamp\<close>

text \<open>
  \<open>now\<close> is the value of \<open>Date.now()\<close>, read only when the proposal has no timestamp.
  \<open>toLocaleDateString\<close> stands for \<open>new Date(t).toLocaleDateString('en-US', {year: 'numeric',
  month: 'short', day: 'numeric'})\<close>, a function of the runtime.
\<close>

definition generatePetitionSVG :: "(int \<Rightarrow> string) \<Rightarrow> int \<Rightarrow> svg_proposal \<Rightarrow> string" where
  \<open>generatePetitionSVG toLocaleDateString now proposal =
     (let petitionText = (if sp_text proposal \<noteq> [] then sp_text proposal else ''Unknown petition'');
          upvotes = sp_upvotes proposal;
          downvotes = sp_downvotes proposal;
          netVotes = upvotes - downvotes;
          netVotesDisplay = (if netVotes > 0 then ''+'' @ showInt netVotes else showInt netVotes);
          netVotesColor = (if netVotes > 0 then ''#11cc77''
                           else if netVotes < 0 then ''#ff0099'' else ''#ffffff'');
          svgProposalId = (if sp_id proposal \<noteq> [] then sp_id proposal else ''unknown'');
          timestamp = toLocaleDateString
                        (if sp_timestamp proposal \<noteq> 0 then sp_timestamp proposal else now)
      in svgTemplate petitionText upvotes downvotes netVotesColor netVotesDisplay svgProposalId
           timestamp)\<close>

text \<open>
  The runtime's date formatting in the UTC time zone (the time zone of the Workers runtime):
  days since the epoch to a proleptic Gregorian civil date, printed as \<open>Jan 1, 1970\<close>.
  It is not code of the repository; it serves to evaluate the renderer on concrete inputs.
\<close>

definition monthShort :: "int \<Rightarrow> string" where
  "monthShort m =
     (if m = 1 then ''Jan'' else if m = 2 then ''Feb'' else if m = 3 then ''Mar''
      else if m = 4 then ''Apr'' else if m = 5 then ''May'' else if m = 6 then ''Jun''
      else if m = 7 then ''Jul'' else if m = 8 then ''Aug'' else if m = 9 then ''Sep''
      else if m = 10 then ''Oct'' else if m = 11 then ''Nov'' else ''Dec'')"

definition toLocaleDateString_UTC :: "int \<Rightarrow> string" where
  "toLocaleDateString_UTC t =
     (if t < - 8640000000000000 \<or> 8640000000000000 < t then ''Invalid Date''
      else
        (let z = t div 86400000 + 719468;
             era = z div 146097;
             doe = z mod 146097;
             yoe = (doe - doe div 1460 + doe div 36524 - doe div 146096) div 365;
             doy = doe - (365 * yoe + yoe div 4 - yoe div 100);
             mp = (5 * doy + 2) div 153;
             d = doy - (153 * mp + 2) div 5 + 1;
             m = (if mp < 10 then mp + 3 else mp - 9);
             y = yoe + era * 400 + (if m \<le> 2 then 1 else 0)
         in monthShort m @ '' '' @ showInt d @ '', '' @ showInt y))"

text \<open>The current line the loop of \<open>generateSVGTextLines\<close> ends with when it never pushes a
  line: the words joined by single spaces, empty leading words dropped.\<close>

fun joinFrom :: "string \<Rightarrow> string list \<Rightarrow> string" where
  "joinFrom cur [] = cur"
| "joinFrom cur (w # ws) = joinFrom (if cur \<noteq> [] then cur @ '' '' @ w else w) ws"

subsection \<open>Proposals handed to the renderer\<close>

definition plain_proposal :: svg_proposal where
  "plain_proposal =
     \<lparr>sp_id = ''proposal_1700000000000_k3x9q'', sp_text = ''Free parking'',
      sp_timestamp = 1700000000000, sp_author_name = ''Citizen 1'',
      sp_upvotes = 3, sp_downvotes = 1\<rparr>"

subsection \<open>The ids the renderer receives\<close>






section \<open>Meta-tag injector\<close>

subsection \<open>String search and the three tag patterns\<close>

fun startsWith :: "string \<Rightarrow> string \<Rightarrow> bool" where
  "startsWith s [] = True"
| "startsWith [] (p # ps) = False"
| "startsWith (x # xs) (p # ps) = (x = p \<and> startsWith xs ps)"

text \<open>\<open>s.indexOf(needle)\<close>: the index of the first occurrence, or -1.\<close>

fun indexOfFrom :: "string \<Rightarrow> nat \<Rightarrow> string \<Rightarrow> int" where
  "indexOfFrom needle i [] = (if needle = [] then int i else - 1)"
| "indexOfFrom needle i (x # xs) =
     (if startsWith (x # xs) needle then int i else indexOfFrom needle (Suc i) xs)"

definition indexOf :: "string \<Rightarrow> string \<Rightarrow> int" where
  "indexOf s needle = indexOfFrom needle 0 s"

text \<open>
  The pieces of the patterns
  \<open>/<meta\s+property=["']og:image(:[^"']*)?["'][^>]*>/g\<close>,
  \<open>/<meta\s+name=["']twitter:image(:[^"']*)?["'][^>]*>/g\<close> and
  \<open>/<meta\s+name=["']twitter:image:src["'][^>]*>/g\<close>.
  Each piece takes the text at the current position and returns the text after its match.
  Every greedy run in these patterns is followed by something the run itself cannot match,
  so backtracking never finds a match the longest run misses. \<open>\s\<close> is the white space
  below code unit 256.
\<close>

definition isSpace :: "char \<Rightarrow> bool" where
  "isSpace c = (c \<in> {CHR 0x09, CHR 0x0A, CHR 0x0B, CHR 0x0C, CHR 0x0D, CHR 0x20, CHR 0xA0})"

definition isQuote :: "char \<Rightarrow> bool" where
  "isQuote c = (c = CHR 0x22 \<or> c = CHR 0x27)"

fun literal :: "string \<Rightarrow> string \<Rightarrow> string option" where
  "literal [] s = Some s"
| "literal (p # ps) [] = None"
| "literal (p # ps) (x # xs) = (if p = x then literal ps xs else None)"

text \<open>\<open>\s+\<close>\<close>

definition spaces1 :: "string \<Rightarrow> string option" where
  "spaces1 s = (case s of [] \<Rightarrow> None
                | c # _ \<Rightarrow> if isSpace c then Some (dropWhile isSpace s) else None)"

text \<open>\<open>["']\<close>\<close>

definition quote :: "string \<Rightarrow> string option" where
  "quote s = (case s of [] \<Rightarrow> None | q # rest \<Rightarrow> if isQuote q then Some rest else None)"

text \<open>\<open>(:[^"']*)?\<close>, when the pattern has it\<close>

definition optSuffix :: "bool \<Rightarrow> string \<Rightarrow> string" where
  "optSuffix present s =
     (case s of [] \<Rightarrow> s
      | c # rest \<Rightarrow> if present \<and> c = CHR '':'' then dropWhile (\<lambda>c. \<not> isQuote c) rest else s)"

text \<open>\<open>[^>]*>\<close>\<close>

definition untilGt :: "string \<Rightarrow> string option" where
  "untilGt s = (case dropWhile (\<lambda>c. c \<noteq> CHR ''>'') s of [] \<Rightarrow> None | _ # rest \<Rightarrow> Some rest)"

definition matchMetaTag :: "string \<Rightarrow> string \<Rightarrow> bool \<Rightarrow> string \<Rightarrow> string option" where
  "matchMetaTag attr key suffix s =
     Option.bind (literal ''<meta'' s) (\<lambda>s1.
     Option.bind (spaces1 s1) (\<lambda>s2.
     Option.bind (literal (attr @ ''='') s2) (\<lambda>s3.
     Option.bind (quote s3) (\<lambda>s4.
     Option.bind (literal key s4) (\<lambda>s5.
     Option.bind (quote (optSuffix suffix s5)) untilGt)))))"

text \<open>
  \<open>s.replace(pattern, '')\<close> with the \<open>g\<close> flag: scan from the left; where the pattern matches,
  drop the match and go on after it (\<open>skip\<close> counts the characters of the match still to
  drop); elsewhere keep the character.
\<close>

fun removeMatches :: "(string \<Rightarrow> string option) \<Rightarrow> nat \<Rightarrow> string \<Rightarrow> string" where
  "removeMatches m skip [] = []"
| "removeMatches m (Suc skip) (x # xs) = removeMatches m skip xs"
| "removeMatches m 0 (x # xs) =
     (case m (x # xs) of
        Some rest \<Rightarrow> removeMatches m (length xs - length rest) xs
      | None \<Rightarrow> x # removeMatches m 0 xs)"

text \<open>The three \<open>replace\<close> calls of \<open>serveCustomizedHtml\<close>.\<close>

definition stripImageTags :: "string \<Rightarrow> string" where
  "stripImageTags html =
     removeMatches (matchMetaTag ''name'' ''twitter:image:src'' False) 0
       (removeMatches (matchMetaTag ''name'' ''twitter:image'' True) 0
         (removeMatches (matchMetaTag ''property'' ''og:image'' True) 0 html))"

subsection \<open>\<open>serveCustomizedHtml\<close>\<close>

text \<open>
  The response: its body and the headers set on top of those of the fetched document (none
  when the fetched response's own headers are passed on).
\<close>

record page_response =
  page_body :: string
  page_headers :: "(string \<times> string) list"

text \<open>The template literal \<open>customMetaTags\<close>.\<close>

definition customMetaTags :: "int \<Rightarrow> string \<Rightarrow> string \<Rightarrow> string \<Rightarrow> string" where
  \<open>customMetaTags now proposalText fullProposalUrl shareImageUrl =
     concat [
      nl,
      ''      <!-- RADICAL SOCIAL SHARING META TAGS '', showInt now, '' -->'', nl,
      ''      <!-- Primary Meta Tags -->'', nl,
      ''      <meta name="title" content="RADICAL Petition: '', take 60 proposalText, ''">'', nl,
      ''      <meta name="description" content="'', take 150 proposalText, ''">'', nl,
      ''      '', nl,
      ''      <!-- Open Graph / Facebook -->'', nl,
      ''      <meta property="og:type" content="website">'', nl,
      ''      <meta property="og:url" content="'', fullProposalUrl, ''">'', nl,
      ''      <meta property="og:title" content="RADICAL Petition: '', take 60 proposalText, ''">'', nl,
      ''      <meta property="og:description" content="'', take 150 proposalText, ''">'', nl,
      ''      <meta property="og:image" content="'', shareImageUrl, ''">'', nl,
      ''      <meta property="og:image:width" content="1200">'', nl,
      ''      <meta property="og:image:height" content="630">'', nl,
      ''      <meta property="og:image:alt" content="RADICAL Petition: '', take 60 proposalText, ''">'', nl,
      ''      '', nl,
      ''      <!-- Twitter -->'', nl,
      ''      <meta name="twitter:card" content="summary_large_image">'', nl,
      ''      <meta name="twitter:url" content="'', fullProposalUrl, ''">'', nl,
      ''      <meta name="twitter:title" content="RADICAL Petition">'', nl,
      ''      <meta name="twitter:description" content="'', take 150 proposalText, ''">'', nl,
      ''      <meta name="twitter:image" content="'', shareImageUrl, ''">'', nl,
      ''      <meta name="twitter:image:alt" content="RADICAL Petition: '', take 60 proposalText, ''">'', nl,
      ''    '']\<close>

text \<open>
  \<open>SELECT p.id, p.text, ... FROM proposals p JOIN users u ON p.author_id = u.id WHERE p.id = ?\<close>
  with \<open>.first()\<close>: the text of the first proposal with that id whose author exists.
\<close>

definition proposalForPage :: "store \<Rightarrow> string \<Rightarrow> string option" where
  "proposalForPage s pid =
     map_option proposal_text
       (first_where (\<lambda>p. proposal_id p = pid \<and> (\<exists>u \<in> set (users s). author_id p = user_id u))
          (proposals s))"

text \<open>
  \<open>hostname\<close> is \<open>url.hostname\<close>, \<open>isTestMeta\<close> is \<open>url.searchParams.get('test_meta') === 'true'\<close>,
  \<open>html\<close> is the text of the document \<open>fetch(request)\<close> returns, \<open>now\<close> is \<open>Date.now()\<close>.
  \<open>return await fetch(request)\<close> hands the fetched document on unchanged.
\<close>

definition serveCustomizedHtml ::
  "int \<Rightarrow> store \<Rightarrow> string \<Rightarrow> bool \<Rightarrow> string \<Rightarrow> string \<Rightarrow> page_response" where
  \<open>serveCustomizedHtml now s hostname isTestMeta pid html =
     (case (if isTestMeta then Some ''This is a test proposal for meta tags''
            else proposalForPage s pid) of
        None \<Rightarrow> \<lparr>page_body = html, page_headers = []\<rparr>
      | Some proposalText \<Rightarrow>
          (let shareImageUrl = ''https://'' @ hostname @ ''/api/petition-svg?id=''
                                 @ (if isTestMeta then ''test_proposal'' else pid);
               fullProposalUrl = ''https://'' @ hostname @ ''/?proposal='' @ pid;
               modifiedHtml = stripImageTags html;
               headEndIndex = indexOf modifiedHtml ''</head>''
           in if headEndIndex = - 1
              then \<lparr>page_body = modifiedHtml, page_headers = []\<rparr>
              else \<lparr>page_body = take (nat headEndIndex) modifiedHtml
                                  @ customMetaTags now proposalText fullProposalUrl shareImageUrl
                                  @ drop (nat headEndIndex) modifiedHtml,
                    page_headers = [(''Cache-Control'', ''no-store, max-age=0''),
                                    (''X-Custom-Meta'', if isTestMeta then ''test'' else ''proposal''),
                                    (''X-Share-Image-Url'', shareImageUrl)]\<rparr>))\<close>

subsection \<open>Documents to serve\<close>

definition page_no_head :: string where
  \<open>page_no_head = ''<html><meta property="og:image" content="a.png"><body>hi</body></html>''\<close>

text \<open>A document with no \<open></head>\<close> in which removing an image tag leaves one.\<close>

definition page_split_head :: string where
  \<open>page_split_head = ''</he<meta property="og:image" content="a.png">ad>''\<close>

definition page_tag_only :: string where
  \<open>page_tag_only = ''<meta property="og:image" content="a.png">''\<close>

section \<open>Listing proposals: \<open>getProposals\<close>\<close>

text \<open>A row of the listing query: the selected columns of the proposal and its author and
  the four counting sub-selects.\<close>

record listing_row =
  lr_id :: string
  lr_text :: string
  lr_timestamp :: int
  lr_trending :: bool
  lr_meme_url :: "string option"
  lr_author_name :: string
  lr_author_id :: string
  lr_upvotes :: nat
  lr_downvotes :: nat
  lr_petition_signatures :: nat
  lr_verified_petitioners :: nat

definition countVotes :: "store \<Rightarrow> string \<Rightarrow> string \<Rightarrow> nat" where
  "countVotes s pid vt =
     length (filter (\<lambda>v. vote_proposal_id v = pid \<and> vote_type v = vt) (votes s))"

definition listingRow :: "store \<Rightarrow> proposal_row \<Rightarrow> user_row \<Rightarrow> listing_row" where
  "listingRow s p u =
     \<lparr>lr_id = proposal_id p, lr_text = proposal_text p, lr_timestamp = proposal_timestamp p,
      lr_trending = trending p, lr_meme_url = meme_url p,
      lr_author_name = user_name u, lr_author_id = user_id u,
      lr_upvotes = countVotes s (proposal_id p) ''upvote'',
      lr_downvotes = countVotes s (proposal_id p) ''downvote'',
      lr_petition_signatures =
        length (filter (\<lambda>v. vote_proposal_id v = proposal_id p \<and> vote_type v = ''upvote''
                             \<and> is_petition v) (votes s)),
      lr_verified_petitioners =
        length (remdups (map pd_user_id
          (filter (\<lambda>d. pd_proposal_id d = proposal_id p \<and> verified d) (petition_details s))))\<rparr>"

text \<open>\<open>FROM proposals p JOIN users u ON p.author_id = u.id\<close>, before any \<open>ORDER BY\<close>.\<close>

definition listingQuery :: "store \<Rightarrow> listing_row list" where
  "listingQuery s =
     concat (map (\<lambda>p. map (listingRow s p) (filter (\<lambda>u. author_id p = user_id u) (users s)))
                 (proposals s))"

text \<open>
  \<open>ORDER BY\<close> is a stable sort on the key (SQL leaves the order of rows with equal keys
  open); \<open>DESC\<close> on a number negates it, several keys compare lexicographically.
\<close>

definition netVotesOf :: "listing_row \<Rightarrow> int" where
  "netVotesOf r = int (lr_upvotes r) - int (lr_downvotes r)"

text \<open>\<open>LIMIT ? OFFSET ?\<close> as SQLite reads them: a negative limit is no limit, a negative
  offset is 0.\<close>

definition limitOffset :: "int \<Rightarrow> int \<Rightarrow> 'a list \<Rightarrow> 'a list" where
  "limitOffset lim off rows =
     (let rest = drop (nat off) rows in if lim < 0 then rest else take (nat lim) rest)"

text \<open>
  JavaScript numbers are doubles. An integer is a double exactly when it has at most 53
  significant bits; any other is rounded to the nearest one, ties to the even mantissa.
  An integer too large for a double (\<open>Infinity\<close>) is left as the large integer it rounds to:
  every use of it below ends as the use of \<open>Infinity\<close> does.
\<close>

fun bitLength :: "nat \<Rightarrow> nat" where
  "bitLength n = (if n = 0 then 0 else Suc (bitLength (n div 2)))"

declare bitLength.simps [simp del]

definition toDouble :: "int \<Rightarrow> int" where
  "toDouble n =
     (let e = bitLength (nat \<bar>n\<bar>) - 53
      in if e = 0 then n
         else (let q = \<bar>n\<bar> div 2 ^ e; r = \<bar>n\<bar> mod 2 ^ e; half = 2 ^ (e - 1);
                   q' = (if half < r \<or> (r = half \<and> odd q) then q + 1 else q)
               in sgn n * (q' * 2 ^ e)))"

text \<open>
  \<open>parseInt(param) || dflt\<close>: \<open>None\<close> is \<open>NaN\<close> (parameter absent or not a number), \<open>Some n\<close>
  is a parameter whose leading digits spell the integer \<open>n\<close>.
\<close>

definition parsedOr :: "int option \<Rightarrow> int \<Rightarrow> int" where
  "parsedOr p dflt =
     (case p of None \<Rightarrow> dflt | Some n \<Rightarrow> if toDouble n = 0 then dflt else toDouble n)"

text \<open>\<open>limit\<close> and \<open>offset\<close> as the handler computes them.\<close>

definition pageLimit :: "int option \<Rightarrow> int" where
  "pageLimit limitParam = min (parsedOr limitParam 20) 100"

definition pageOffset :: "int option \<Rightarrow> int option \<Rightarrow> int" where
  "pageOffset pageParam limitParam =
     toDouble (toDouble (parsedOr pageParam 1 - 1) * pageLimit limitParam)"

text \<open>
  The two numbers are bound to \<open>LIMIT ? OFFSET ?\<close>. SQLite takes a number there only if it is
  a 64-bit integer; otherwise the statement fails (datatype mismatch), the handler's
  \<open>catch\<close> runs and the answer is the 500.
\<close>

definition fitsInt64 :: "int \<Rightarrow> bool" where
  "fitsInt64 n = (- (2 ^ 63) \<le> n \<and> n < 2 ^ 63)"

record listing_response =
  data :: "listing_row list"
  page :: int
  limit :: int
  total :: nat
  hasMore :: bool

text \<open>
  \<open>getProposals\<close> of \<open>worker.js\<close>; \<open>pageParam\<close>, \<open>limitParam\<close> and \<open>sortParam\<close> are the
  query parameters \<open>page\<close>, \<open>limit\<close> and \<open>sortBy\<close>. The result is the 500 of the \<open>catch\<close>
  (of its \<open>details\<close> only the context is kept, the error's own message and stack are the
  runtime's) or the page.
\<close>

definition getProposals ::
  "store \<Rightarrow> int option \<Rightarrow> int option \<Rightarrow> string option \<Rightarrow> http_response + listing_response" where
  "getProposals s pageParam limitParam sortParam =
     (let pageNo = parsedOr pageParam 1;
          lim = pageLimit limitParam;
          off = pageOffset pageParam limitParam;
          sortBy = (case sortParam of None \<Rightarrow> ''newest'' | Some v \<Rightarrow> if v = [] then ''newest'' else v);
          rows = listingQuery s;
          ordered =
            (if sortBy = ''newest'' then sort_key (\<lambda>r. - lr_timestamp r) rows
             else if sortBy = ''oldest'' then sort_key (\<lambda>r. lr_timestamp r) rows
             else if sortBy = ''popular''
               then sort_key (\<lambda>r. (- int (lr_upvotes r), - lr_timestamp r)) rows
             else if sortBy = ''controversial''
               then sort_key (\<lambda>r. (- int (lr_upvotes r + lr_downvotes r),
                                    \<bar>netVotesOf r\<bar>, - lr_timestamp r)) rows
             else sort_key (\<lambda>r. - lr_timestamp r) rows);
          results = limitOffset lim off ordered
      in if fitsInt64 lim \<and> fitsInt64 off
         then Inr \<lparr>data = results, page = pageNo, limit = lim, total = length results,
                   hasMore = (int (length results) = lim)\<rparr>
         else Inl (createResponse
                [(''error'', JStr ''Failed to retrieve proposals''),
                 (''details'', JObj [(''context'', JObj [(''action'', JStr ''get_proposals'')])])]
                500))"

text \<open>
  The other \<open>getProposals\<close>, of the second source file (the one without pagination). With a
  \<open>userId\<close> parameter it annotates each row with that user's vote and petition status; the
  maps \<open>voteMap\<close> and \<open>petitionMap\<close> keep the last row read for a proposal.
\<close>

record user_annotation =
  userVote :: "string option"
  userPetitionSigned :: bool
  userPetitionVerified :: bool

definition annotateFor :: "store \<Rightarrow> string \<Rightarrow> listing_row \<Rightarrow> user_annotation" where
  "annotateFor s uid r =
     (let voteInfo = List.find (\<lambda>v. vote_user_id v = uid \<and> vote_proposal_id v = lr_id r)
                       (rev (votes s));
          petition = List.find (\<lambda>d. pd_user_id d = uid \<and> pd_proposal_id d = lr_id r)
                       (rev (petition_details s))
      in \<lparr>userVote = map_option vote_type voteInfo,
          userPetitionSigned = (case voteInfo of None \<Rightarrow> False | Some v \<Rightarrow> is_petition v),
          userPetitionVerified = (case petition of None \<Rightarrow> False | Some d \<Rightarrow> verified d)\<rparr>)"

definition getProposals_unpaged ::
  "store \<Rightarrow> string option \<Rightarrow> string \<Rightarrow> (listing_row \<times> user_annotation option) list" where
  "getProposals_unpaged s sortParam uid =
     (let sortBy = (case sortParam of None \<Rightarrow> ''newest'' | Some v \<Rightarrow> if v = [] then ''newest'' else v);
          rows = listingQuery s;
          results =
            (if sortBy = ''newest'' then sort_key (\<lambda>r. - lr_timestamp r) rows
             else if sortBy = ''popular'' then sort_key (\<lambda>r. - netVotesOf r) rows
             else if sortBy = ''controversial''
               then sort_key (\<lambda>r. - int (lr_upvotes r + lr_downvotes r)) rows
             else if sortBy = ''petitions''
               then sort_key (\<lambda>r. - int (lr_petition_signatures r)) rows
             else rows)
      in if uid \<noteq> [] \<and> results \<noteq> []
         then map (\<lambda>r. (r, Some (annotateFor s uid r))) results
         else map (\<lambda>r. (r, None)) results)"

subsection \<open>A store with two proposals\<close>

definition listing_store :: store where
  "listing_store =
     \<lparr>users = [\<lparr>user_id = ''u1'', user_name = ''Citizen 1''\<rparr>,
               \<lparr>user_id = ''u2'', user_name = ''Citizen 2''\<rparr>,
               \<lparr>user_id = ''u3'', user_name = ''Citizen 3''\<rparr>],
      proposals = [\<lparr>proposal_id = ''pA'', author_id = ''u1'', proposal_text = ''Ban cars'',
                    proposal_timestamp = 1000, trending = False, meme_url = None\<rparr>,
                   \<lparr>proposal_id = ''pB'', author_id = ''u2'', proposal_text = ''Free parking'',
                    proposal_timestamp = 2000, trending = False, meme_url = None\<rparr>],
      comments = [],
      votes = [\<lparr>vote_id = 1, vote_proposal_id = ''pA'', vote_user_id = ''u1'',
                vote_type = ''upvote'', vote_timestamp = 3000, is_petition = False\<rparr>,
               \<lparr>vote_id = 2, vote_proposal_id = ''pA'', vote_user_id = ''u2'',
                vote_type = ''downvote'', vote_timestamp = 3001, is_petition = False\<rparr>,
               \<lparr>vote_id = 3, vote_proposal_id = ''pA'', vote_user_id = ''u3'',
                vote_type = ''downvote'', vote_timestamp = 3002, is_petition = False\<rparr>],
      comment_votes = [],
      petition_details = []\<rparr>"
section \<open>Properties of the vote toggle\<close>

lemma first_where_None: "first_where P xs = None \<longleftrightarrow> (\<forall>x \<in> set xs. \<not> P x)"
  by (auto simp: first_where_def find_None_iff)

lemma first_where_SomeD: "first_where P xs = Some x \<Longrightarrow> x \<in> set xs \<and> P x"
  unfolding first_where_def by (induction xs) (auto split: if_splits)

lemma user_exists_iff: "user_exists s uid \<longleftrightarrow> first_where (\<lambda>u. user_id u = uid) (users s) \<noteq> None"
  by (auto simp: user_exists_def first_where_None)

lemma proposal_exists_iff:
  "proposal_exists s pid \<longleftrightarrow> first_where (\<lambda>p. proposal_id p = pid) (proposals s) \<noteq> None"
  by (auto simp: proposal_exists_def first_where_None)

lemma processPetition_Inr:
  "processPetition now s pid uid d lg = Inr (s', lg') \<Longrightarrow>
     votes s' = votes s \<and> users s' = users s \<and> proposals s' = proposals s \<and>
     comments s' = comments s \<and> comment_votes s' = comment_votes s"
  by (auto simp: processPetition_def split: if_splits option.splits)

lemma processPetition_Inl:
  "processPetition now s pid uid d lg = Inl out \<Longrightarrow> db out = s \<and> logged out = lg"
  by (auto simp: processPetition_def split: if_splits option.splits)

lemma finishVote_frame:
  "votes (db (finishVote now s req lg)) = votes s \<and>
   users (db (finishVote now s req lg)) = users s \<and>
   proposals (db (finishVote now s req lg)) = proposals s \<and>
   comments (db (finishVote now s req lg)) = comments s \<and>
   comment_votes (db (finishVote now s req lg)) = comment_votes s"
  by (auto simp: finishVote_def voteSuccess_def split: option.splits sum.splits
      dest: processPetition_Inr processPetition_Inl)

lemma finishVote_logged_prefix:
  "\<exists>more. logged (finishVote now s req lg) = lg @ more"
  by (auto simp: finishVote_def voteSuccess_def processPetition_def split: option.splits sum.splits if_splits)

lemma hd_logged_finishVote:
  "lg \<noteq> [] \<Longrightarrow> hd (logged (finishVote now s req lg)) = hd lg"
  using finishVote_logged_prefix [of now s req lg] by auto

lemma createOrUpdateVote_valid:
  assumes "valid_vote_request s req"
  shows "createOrUpdateVote now s req =
    (case existingVote s (proposalId req) (userId req) of
          Some ev \<Rightarrow>
            if vote_type ev = voteType req then
              \<lparr>db = s\<lparr>votes := filter (\<lambda>v. vote_id v \<noteq> vote_id ev) (votes s)\<rparr>,
               response = createResponse
                 [(''proposalId'', JStr (proposalId req)), (''userId'', JStr (userId req)), (''voteType'', JNull)] 200,
               logged = [DeletedVote (vote_id ev)]\<rparr>
            else
              finishVote now
                (s\<lparr>votes := map (\<lambda>v. if vote_id v = vote_id ev
                                       then v\<lparr>vote_type := voteType req, vote_timestamp := now,
                                              is_petition := (voteType req = ''upvote'' \<and> isPetition req)\<rparr>
                                       else v) (votes s)\<rparr>)
                req [UpdatedVote (vote_id ev) (voteType req)]
        | None \<Rightarrow>
            finishVote now
              (s\<lparr>votes := votes s @
                   [\<lparr>vote_id = next_rowid (votes s), vote_proposal_id = proposalId req, vote_user_id = userId req,
                     vote_type = voteType req, vote_timestamp = now, is_petition = (voteType req = ''upvote'' \<and> isPetition req)\<rparr>]\<rparr>)
              req [CreatedVote (next_rowid (votes s))])"
  using assms
  by (auto simp: valid_vote_request_def createOrUpdateVote_def Let_def user_exists_iff proposal_exists_iff
      split: option.splits)

lemma createOrUpdateVote_frame:
  "users (db (createOrUpdateVote now s req)) = users s \<and>
   proposals (db (createOrUpdateVote now s req)) = proposals s \<and>
   comments (db (createOrUpdateVote now s req)) = comments s \<and>
   comment_votes (db (createOrUpdateVote now s req)) = comment_votes s"
  by (simp add: createOrUpdateVote_def Let_def finishVote_frame split: option.splits)

lemma votes_createOrUpdateVote:
  "votes (db (createOrUpdateVote now s req)) =
     (if valid_vote_request s req then
        (case existingVote s (proposalId req) (userId req) of
           Some ev \<Rightarrow>
             if vote_type ev = voteType req
             then filter (\<lambda>v. vote_id v \<noteq> vote_id ev) (votes s)
             else map (\<lambda>v. if vote_id v = vote_id ev
                            then v\<lparr>vote_type := voteType req, vote_timestamp := now,
                                   is_petition := (voteType req = ''upvote'' \<and> isPetition req)\<rparr>
                            else v) (votes s)
         | None \<Rightarrow> votes s @
              [\<lparr>vote_id = next_rowid (votes s), vote_proposal_id = proposalId req,
                vote_user_id = userId req, vote_type = voteType req, vote_timestamp = now,
                is_petition = (voteType req = ''upvote'' \<and> isPetition req)\<rparr>])
      else votes s)"
proof (cases "valid_vote_request s req")
  case True
  then show ?thesis
    by (simp add: createOrUpdateVote_valid finishVote_frame split: option.splits)
next
  case False
  then show ?thesis
    by (auto simp: valid_vote_request_def createOrUpdateVote_def Let_def user_exists_iff
        proposal_exists_iff)
qed

lemma map_key_update:
  "(\<And>x. k (g x) = k x) \<Longrightarrow> k \<circ> (\<lambda>x. if P x then g x else x) = k"
  by (auto simp: fun_eq_iff)

lemma unique_votes_preserved:
  assumes "unique_votes s"
  shows "unique_votes (db (createOrUpdateVote now s req))"
proof -
  let ?pid = "proposalId req" and ?uid = "userId req"
  have none: "existingVote s ?pid ?uid = None \<Longrightarrow> (?pid, ?uid) \<notin> vote_key ` set (votes s)"
    by (auto simp: existingVote_def first_where_None vote_key_def)
  show ?thesis
    using assms none
    by (auto simp: unique_votes_def votes_createOrUpdateVote distinct_map_filter map_key_update
        vote_key_def split: option.splits)
qed

lemma petition_details_processPetition:
  assumes "processPetition now s pid uid d lg = Inr (s', lg')"
    and "unique_petition_details s"
  shows "unique_petition_details s'"
proof -
  have none: "first_where (\<lambda>r. pd_user_id r = uid \<and> pd_proposal_id r = pid) (petition_details s) = None
      \<Longrightarrow> (pid, uid) \<notin> pd_key ` set (petition_details s)"
    by (auto simp: first_where_None pd_key_def)
  show ?thesis
    using assms none
    by (auto simp: processPetition_def unique_petition_details_def map_key_update pd_key_def
        split: if_splits option.splits)
qed

lemma finishVote_petition_details:
  assumes "unique_petition_details s"
  shows "unique_petition_details (db (finishVote now s req lg))"
  using assms
  by (auto simp: finishVote_def voteSuccess_def split: option.splits sum.splits
      dest: petition_details_processPetition processPetition_Inl)

lemma unique_petition_details_votes_update [simp]:
  "unique_petition_details (s\<lparr>votes := vs\<rparr>) = unique_petition_details s"
  by (simp add: unique_petition_details_def)

lemma unique_petition_details_preserved:
  assumes "unique_petition_details s"
  shows "unique_petition_details (db (createOrUpdateVote now s req))"
  using assms
  by (simp add: createOrUpdateVote_def Let_def finishVote_petition_details split: option.splits)

lemma unique_comment_votes_preserved:
  assumes "unique_comment_votes s"
  shows "unique_comment_votes (db (createOrUpdateVote now s req))"
  using assms by (simp add: unique_comment_votes_def createOrUpdateVote_frame)

lemma createOrUpdateCommentVote_frame:
  "votes (fst (createOrUpdateCommentVote now fid s req)) = votes s \<and>
   petition_details (fst (createOrUpdateCommentVote now fid s req)) = petition_details s"
  by (simp add: createOrUpdateCommentVote_def Let_def split: option.splits)

lemma comment_votes_unique_preserved:
  assumes "unique_comment_votes s"
  shows "unique_comment_votes (fst (createOrUpdateCommentVote now fid s req))"
proof -
  let ?cid = "cv_commentId req" and ?uid = "cv_userId req"
  have none: "existingCommentVote s ?cid ?uid = None \<Longrightarrow> (?cid, ?uid) \<notin> cvote_key ` set (comment_votes s)"
    by (auto simp: existingCommentVote_def first_where_None cvote_key_def)
  show ?thesis
    using assms none
    by (auto simp: unique_comment_votes_def createOrUpdateCommentVote_def Let_def
        distinct_map_filter map_key_update cvote_key_def split: option.splits)
qed

lemma find_filter_hd:
  "List.find P xs = (case filter P xs of [] \<Rightarrow> None | x # _ \<Rightarrow> Some x)"
  by (induction xs) auto

lemma existingVote_votes_of:
  "existingVote s pid uid = (case votes_of s pid uid of [] \<Rightarrow> None | x # _ \<Rightarrow> Some x)"
  by (simp add: existingVote_def votes_of_def first_where_def find_filter_hd)

lemma distinct_key_filter_le1:
  "distinct (map k xs) \<Longrightarrow> length (filter (\<lambda>x. k x = a) xs) \<le> 1"
proof (induction xs)
  case Nil
  then show ?case by simp
next
  case (Cons x xs)
  show ?case
  proof (cases "k x = a")
    case True
    from Cons.prems have "k x \<notin> k ` set xs"
      by simp
    then have "\<forall>y \<in> set xs. k y \<noteq> k x"
      by (metis imageI)
    with True have "\<forall>y \<in> set xs. k y \<noteq> a"
      by simp
    then have "filter (\<lambda>y. k y = a) xs = []"
      by (simp add: filter_empty_conv)
    with True show ?thesis by simp
  next
    case False
    with Cons show ?thesis by simp
  qed
qed

lemma votes_of_key: "votes_of s pid uid = filter (\<lambda>v. vote_key v = (pid, uid)) (votes s)"
  by (simp add: votes_of_def vote_key_def)

lemma unique_votes_le1: "unique_votes s \<Longrightarrow> length (votes_of s pid uid) \<le> 1"
  using distinct_key_filter_le1 [of vote_key "votes s" "(pid, uid)"]
  by (simp add: unique_votes_def votes_of_key)

lemma filter_map_update:
  "(\<And>x. P (g x) = P x) \<Longrightarrow>
   filter P (map (\<lambda>x. if Q x then g x else x) xs) = map (\<lambda>x. if Q x then g x else x) (filter P xs)"
  by (induction xs) auto

text \<open>The rows of one pair after a call, from the rows of that pair before it.\<close>

lemma existingVote_filter:
  "existingVote s pid uid =
     (case filter (\<lambda>v. vote_proposal_id v = pid \<and> vote_user_id v = uid) (votes s) of
        [] \<Rightarrow> None | x # _ \<Rightarrow> Some x)"
  by (simp add: existingVote_def first_where_def find_filter_hd)

lemma votes_of_createOrUpdateVote:
  assumes "valid_vote_request s req" and "unique_votes s"
  shows "votes_of (db (createOrUpdateVote now s req)) (proposalId req) (userId req) =
     (case votes_of s (proposalId req) (userId req) of
        [] \<Rightarrow> [\<lparr>vote_id = next_rowid (votes s), vote_proposal_id = proposalId req,
                vote_user_id = userId req, vote_type = voteType req, vote_timestamp = now,
                is_petition = (voteType req = ''upvote'' \<and> isPetition req)\<rparr>]
      | ev # _ \<Rightarrow>
          if vote_type ev = voteType req then []
          else [ev\<lparr>vote_type := voteType req, vote_timestamp := now,
                   is_petition := (voteType req = ''upvote'' \<and> isPetition req)\<rparr>])"
proof -
  let ?P = "\<lambda>v. vote_proposal_id v = proposalId req \<and> vote_user_id v = userId req"
  show ?thesis
  proof (cases "filter ?P (votes s)")
    case Nil
    then show ?thesis
      using assms(1)
      by (simp add: votes_of_def votes_createOrUpdateVote existingVote_filter)
  next
    case (Cons ev rest)
    with unique_votes_le1 [OF assms(2), of "proposalId req" "userId req"]
    have fP: "filter ?P (votes s) = [ev]" by (simp add: votes_of_def)
    show ?thesis
    proof (cases "vote_type ev = voteType req")
      case True
      have "filter ?P (filter (\<lambda>v. vote_id v \<noteq> vote_id ev) (votes s))
            = filter (\<lambda>v. vote_id v \<noteq> vote_id ev) (filter ?P (votes s))"
        by (simp add: conj_commute)
      also have "\<dots> = []" by (simp add: fP)
      finally show ?thesis
        using assms(1) True fP
        by (simp add: votes_of_def votes_createOrUpdateVote existingVote_filter)
    next
      case False
      have "filter ?P (map (\<lambda>v. if vote_id v = vote_id ev
                              then v\<lparr>vote_type := voteType req, vote_timestamp := now,
                                     is_petition := (voteType req = ''upvote'' \<and> isPetition req)\<rparr>
                              else v) (votes s))
          = map (\<lambda>v. if vote_id v = vote_id ev
                              then v\<lparr>vote_type := voteType req, vote_timestamp := now,
                                     is_petition := (voteType req = ''upvote'' \<and> isPetition req)\<rparr>
                              else v) (filter ?P (votes s))"
        by (rule filter_map_update) simp
      then show ?thesis
        using assms(1) False fP
        by (simp add: votes_of_def votes_createOrUpdateVote existingVote_filter)
    qed
  qed
qed


lemma valid_vote_request_after:
  "valid_vote_request (db (createOrUpdateVote now s r)) r' = valid_vote_request s r'"
  by (simp add: valid_vote_request_def user_exists_def proposal_exists_def createOrUpdateVote_frame)

text \<open>After a call on a pair that holds no row of the requested type, the pair holds exactly
  one row, of the requested type.\<close>

lemma votes_of_after_cast:
  assumes "valid_vote_request s req" and "unique_votes s"
    and "\<forall>v \<in> set (votes_of s (proposalId req) (userId req)). vote_type v \<noteq> voteType req"
  shows "\<exists>x. votes_of (db (createOrUpdateVote now s req)) (proposalId req) (userId req) = [x]
            \<and> vote_type x = voteType req \<and> vote_timestamp x = now"
  using assms(3)
  by (cases "votes_of s (proposalId req) (userId req)")
     (simp_all add: votes_of_createOrUpdateVote [OF assms(1,2)])

lemma invariant_step:
  assumes "store_invariant s"
  shows "store_invariant (db (createOrUpdateVote now s req))
       \<and> store_invariant (fst (createOrUpdateCommentVote now' freshId s creq))"
proof -
  have "store_invariant (db (createOrUpdateVote now s req))"
    using assms
    by (simp add: store_invariant_def unique_votes_preserved unique_petition_details_preserved
        unique_comment_votes_preserved)
  moreover have "store_invariant (fst (createOrUpdateCommentVote now' freshId s creq))"
    using assms comment_votes_unique_preserved [of s now' freshId creq]
    by (simp add: store_invariant_def unique_votes_def unique_petition_details_def
        createOrUpdateCommentVote_frame)
  ultimately show ?thesis by simp
qed

section \<open>Properties of the renderer's helpers\<close>

lemma replaceAll_Nil [simp]: "replaceAll c r [] = []"
  by (simp add: replaceAll_def)

lemma replaceAll_Cons [simp]:
  "replaceAll c r (x # xs) = (if x = c then r else [x]) @ replaceAll c r xs"
  by (simp add: replaceAll_def)

lemma replaceAll_append [simp]:
  "replaceAll c r (xs @ ys) = replaceAll c r xs @ replaceAll c r ys"
  by (simp add: replaceAll_def)







subsection \<open>Texts without unsafe characters\<close>


















subsection \<open>Word wrap\<close>

lemma length_joinFrom: "length cur \<le> length (joinFrom cur ws)"
proof (induction ws arbitrary: cur)
  case Nil
  then show ?case by simp
next
  case (Cons w ws)
  have "length cur \<le> length (if cur \<noteq> [] then cur @ '' '' @ w else w)"
    by simp
  also have "\<dots> \<le> length (joinFrom (if cur \<noteq> [] then cur @ '' '' @ w else w) ws)"
    by (rule Cons.IH)
  finally show ?case by simp
qed

lemma wrapWords_fits:
  "int (length (joinFrom cur ws)) \<le> cpl \<Longrightarrow> wrapWords cpl ws lines cur = (lines, joinFrom cur ws)"
proof (induction ws arbitrary: cur)
  case Nil
  then show ?case by simp
next
  case (Cons w ws)
  let ?t = "if cur \<noteq> [] then cur @ '' '' @ w else w"
  have "length ?t \<le> length (joinFrom ?t ws)"
    by (rule length_joinFrom)
  with Cons.prems have fits: "int (length ?t) \<le> cpl"
    by simp
  from Cons.prems have "int (length (joinFrom ?t ws)) \<le> cpl"
    by simp
  then have "wrapWords cpl ws lines ?t = (lines, joinFrom ?t ws)"
    by (rule Cons.IH)
  with fits show ?case
    by (simp add: Let_def)
qed

lemma joinFrom_nonempty:
  "cur \<noteq> [] \<Longrightarrow> joinFrom cur ws = cur @ concat (map ((#) CHR '' '') ws)"
  by (induction ws arbitrary: cur) simp_all

lemma split_on_nonempty: "split_on c t \<noteq> []"
  by (induction t) (auto split: list.splits)

lemma split_on_join:
  "split_on c t = w # ws \<Longrightarrow> t = w @ concat (map ((#) c) ws)"
proof (induction t arbitrary: w ws)
  case Nil
  then show ?case by simp
next
  case (Cons x t)
  show ?case
  proof (cases "x = c")
    case True
    with Cons split_on_nonempty [of c t] show ?thesis by (cases "split_on c t") auto
  next
    case False
    with Cons split_on_nonempty [of c t] show ?thesis by (cases "split_on c t") auto
  qed
qed

lemma joinFrom_split:
  "joinFrom [] (split_on CHR '' '' t) = dropWhile (\<lambda>c. c = CHR '' '') t"
proof (induction t)
  case Nil
  then show ?case by simp
next
  case (Cons x t)
  show ?case
  proof (cases "x = CHR '' ''")
    case True
    with Cons show ?thesis by simp
  next
    case False
    obtain w ws where sp: "split_on CHR '' '' t = w # ws"
      using split_on_nonempty [of "CHR '' ''" t] by (cases "split_on CHR '' '' t") auto
    then have "t = w @ concat (map ((#) CHR '' '') ws)"
      by (rule split_on_join)
    with False sp show ?thesis
      by (simp add: joinFrom_nonempty)
  qed
qed

lemma wrappedLines_fits:
  assumes "int (length txt) \<le> width div 22"
  shows "wrappedLines txt width =
     (if dropWhile (\<lambda>c. c = CHR '' '') txt \<noteq> [] then [dropWhile (\<lambda>c. c = CHR '' '') txt] else [])"
proof -
  have "length (dropWhile (\<lambda>c. c = CHR '' '') txt) \<le> length txt"
    by (rule length_dropWhile_le)
  with assms have "int (length (joinFrom [] (split_on CHR '' '' txt))) \<le> width div 22"
    by (simp add: joinFrom_split)
  then have "wrapWords (width div 22) (split_on CHR '' '' txt) [] []
      = ([], joinFrom [] (split_on CHR '' '' txt))"
    by (rule wrapWords_fits)
  then show ?thesis
    by (simp add: wrappedLines_def joinFrom_split)
qed

lemma dropWhile_space_nonempty:
  "dropWhile (\<lambda>c. c = CHR '' '') txt \<noteq> [] \<longleftrightarrow> (\<exists>c \<in> set txt. c \<noteq> CHR '' '')"
  by (induction "txt") auto

subsection \<open>\<open>indexOf\<close> finds a substring exactly when there is one\<close>

lemma startsWith_iff: "startsWith s p \<longleftrightarrow> (\<exists>post. s = p @ post)"
  by (induction s p rule: startsWith.induct) auto

lemma indexOfFrom_neg_iff:
  "indexOfFrom needle i s = - 1 \<longleftrightarrow> \<not> (\<exists>pre post. s = pre @ needle @ post)"
proof (induction s arbitrary: i)
  case Nil
  then show ?case by simp
next
  case (Cons x xs)
  show ?case
  proof (cases "startsWith (x # xs) needle")
    case True
    then obtain post where "x # xs = [] @ needle @ post"
      by (auto simp: startsWith_iff)
    then have "\<exists>pre post. x # xs = pre @ needle @ post"
      by blast
    with True show ?thesis by simp
  next
    case False
    have "(\<exists>pre post. x # xs = pre @ needle @ post) \<longleftrightarrow> (\<exists>pre post. xs = pre @ needle @ post)"
    proof
      assume "\<exists>pre post. x # xs = pre @ needle @ post"
      then obtain pre post where eq: "x # xs = pre @ needle @ post" by blast
      show "\<exists>pre post. xs = pre @ needle @ post"
      proof (cases pre)
        case Nil
        with eq False show ?thesis by (simp add: startsWith_iff)
      next
        case (Cons y pre')
        with eq have "xs = pre' @ needle @ post" by simp
        then show ?thesis by blast
      qed
    next
      assume "\<exists>pre post. xs = pre @ needle @ post"
      then obtain pre post where "xs = pre @ needle @ post" by blast
      then have "x # xs = (x # pre) @ needle @ post" by simp
      then show "\<exists>pre post. x # xs = pre @ needle @ post" by blast
    qed
    with False Cons.IH [of "Suc i"] show ?thesis by simp
  qed
qed

lemma indexOf_neg_iff:
  "indexOf s needle = - 1 \<longleftrightarrow> \<not> (\<exists>pre post. s = pre @ needle @ post)"
  by (simp add: indexOf_def indexOfFrom_neg_iff)

lemma indexOf_found_in_concat:
  assumes "needle \<in> set parts"
  shows "indexOf (before @ concat parts) needle \<noteq> - 1"
proof -
  from assms obtain ps qs where "parts = ps @ needle # qs"
    by (auto simp: in_set_conv_decomp)
  then have "before @ concat parts = (before @ concat ps) @ needle @ concat qs"
    by simp
  then show ?thesis
    unfolding indexOf_neg_iff by blast
qed

subsection \<open>Ordering of the listing\<close>

lemma bitLength_le: "n < 2 ^ k \<Longrightarrow> bitLength n \<le> k"
proof (induction k arbitrary: n)
  case 0
  then show ?case by (simp add: bitLength.simps)
next
  case (Suc k)
  show ?case
  proof (cases "n = 0")
    case True
    then show ?thesis by (simp add: bitLength.simps)
  next
    case False
    from Suc.prems have "n div 2 < 2 ^ k"
      by simp
    then have "bitLength (n div 2) \<le> k"
      by (rule Suc.IH)
    with False show ?thesis
      by (subst bitLength.simps) simp
  qed
qed

lemma bitLength_upper: "n < 2 ^ bitLength n"
proof (induction n rule: bitLength.induct)
  case (1 n)
  show ?case
  proof (cases "n = 0")
    case True
    then show ?thesis by (simp add: bitLength.simps)
  next
    case False
    with 1 have "n div 2 < 2 ^ bitLength (n div 2)"
      by simp
    then have "n < 2 * 2 ^ bitLength (n div 2)"
      by linarith
    with False show ?thesis
      by (subst bitLength.simps) simp
  qed
qed

lemma bitLength_lower: "0 < n \<Longrightarrow> 2 ^ (bitLength n - 1) \<le> n"
proof (induction n rule: bitLength.induct)
  case (1 n)
  then have n: "n \<noteq> 0" by simp
  have bl: "bitLength n = Suc (bitLength (n div 2))"
    using n by (subst bitLength.simps) simp
  show ?case
  proof (cases "n div 2 = 0")
    case True
    then show ?thesis
      using n by (simp add: bl bitLength.simps)
  next
    case False
    then have pos: "0 < n div 2" by simp
    with 1 n have ih: "2 ^ (bitLength (n div 2) - 1) \<le> n div 2"
      by simp
    have "bitLength (n div 2) \<noteq> 0"
      using False by (subst bitLength.simps) simp
    then obtain m where m: "bitLength (n div 2) = Suc m"
      by (cases "bitLength (n div 2)") auto
    with ih have "2 * 2 ^ m \<le> 2 * (n div 2)"
      by simp
    also have "\<dots> \<le> n"
      by simp
    finally show ?thesis
      by (simp add: bl m)
  qed
qed

text \<open>Rounding to a double never takes a number below a power of two it has reached.\<close>

lemma toDouble_ge_pow2:
  assumes "2 ^ k \<le> n"
  shows "2 ^ k \<le> toDouble n"
proof -
  have npos: "0 < n"
    using assms by (smt (verit) zero_less_power)
  let ?a = "nat \<bar>n\<bar>"
  let ?b = "bitLength ?a"
  have a: "int ?a = n" using npos by simp
  show ?thesis
  proof (cases "?b - 53 = 0")
    case True
    then show ?thesis using assms by (simp add: toDouble_def Let_def)
  next
    case False
    define e where "e = ?b - 53"
    have e: "0 < e" "?b = 53 + e"
      using False by (simp_all add: e_def)
    have "2 ^ (?b - 1) \<le> ?a"
      using npos by (intro bitLength_lower) simp
    moreover have "?b - 1 = 52 + e"
      using e by simp
    ultimately have "(2::nat) ^ (52 + e) \<le> ?a"
      by simp
    then have "int (2 ^ (52 + e)) \<le> int ?a"
      by (simp only: of_nat_le_iff)
    then have "(2::int) ^ (52 + e) \<le> n"
      using a by simp
    then have lo: "(2::int) ^ 52 * 2 ^ e \<le> n"
      by (simp add: power_add)
    define q where "q = \<bar>n\<bar> div 2 ^ e"
    have q52: "2 ^ 52 \<le> q"
    proof -
      have "(2::int) ^ 52 * 2 ^ e div 2 ^ e \<le> n div 2 ^ e"
        using lo by (intro zdiv_mono1) simp_all
      then show ?thesis
        using npos by (simp add: q_def)
    qed
    define q' where "q' = (if 2 ^ (e - 1) < \<bar>n\<bar> mod 2 ^ e \<or> (\<bar>n\<bar> mod 2 ^ e = 2 ^ (e - 1) \<and> odd q) then q + 1 else q)"
    have qq: "q \<le> q'" by (simp add: q'_def)
    have td: "toDouble n = q' * 2 ^ e"
      using False npos by (simp add: toDouble_def Let_def e_def q_def q'_def)
    have "?a < 2 ^ ?b" by (rule bitLength_upper)
    then have "int ?a < int (2 ^ ?b)"
      by (simp only: of_nat_less_iff)
    then have "n < 2 ^ ?b"
      using a by simp
    with assms have "(2::int) ^ k < 2 ^ ?b"
      by (rule order_le_less_trans)
    then have "k < ?b"
      by (rule power_less_imp_less_exp [rotated]) simp
    then have "k \<le> 52 + e" using e by simp
    then have "(2::int) ^ k \<le> 2 ^ (52 + e)"
      by (simp add: power_increasing)
    also have "\<dots> = 2 ^ 52 * 2 ^ e" by (simp add: power_add)
    also have "\<dots> \<le> q * 2 ^ e" using q52 by (simp add: mult_right_mono)
    also have "\<dots> \<le> q' * 2 ^ e" using qq by (simp add: mult_right_mono)
    finally show ?thesis using td by simp
  qed
qed

lemma pageOffset_huge:
  assumes "2 ^ 64 \<le> n"
  shows "\<not> fitsInt64 (pageOffset (Some n) None)"
proof -
  have t: "2 ^ 64 \<le> toDouble n"
    using assms by (rule toDouble_ge_pow2)
  then have p: "parsedOr (Some n) 1 = toDouble n"
    by (simp add: parsedOr_def)
  have "2 ^ 63 \<le> toDouble n - 1"
    using t by simp
  then have "2 ^ 63 \<le> toDouble (toDouble n - 1)"
    by (rule toDouble_ge_pow2)
  then have "2 ^ 63 \<le> toDouble (toDouble n - 1) * 20"
    by simp
  then have "2 ^ 63 \<le> toDouble (toDouble (toDouble n - 1) * 20)"
    by (rule toDouble_ge_pow2)
  moreover have "pageLimit None = 20"
    by (simp add: pageLimit_def parsedOr_def)
  ultimately show ?thesis
    by (simp add: pageOffset_def p fitsInt64_def)
qed

text \<open>Integers below \<open>2^53\<close> in size are doubles.\<close>

lemma toDouble_small: "\<bar>n\<bar> < 2 ^ 53 \<Longrightarrow> toDouble n = n"
proof -
  assume "\<bar>n\<bar> < 2 ^ 53"
  then have "nat \<bar>n\<bar> < 2 ^ 53"
    by (simp add: nat_less_iff)
  then have "bitLength (nat \<bar>n\<bar>) \<le> 53"
    by (rule bitLength_le)
  then show ?thesis
    by (simp add: toDouble_def Let_def)
qed

lemma sorted_wrt_limitOffset:
  "sorted_wrt R rows \<Longrightarrow> sorted_wrt R (limitOffset lim off rows)"
  by (simp add: limitOffset_def Let_def sorted_wrt_take sorted_wrt_drop)

lemma sorted_wrt_sort_key:
  fixes k :: "'a \<Rightarrow> 'b::linorder"
  shows "sorted_wrt (\<lambda>a b. k a \<le> k b) (sort_key k xs)"
  using sorted_sort_key [of k xs] by (simp add: sorted_map)

section \<open>Claims about the vote toggle\<close>

text \<open>
  C1, as amended. Casting the same vote type twice in succession, on a proposal and user that
  exist, leaves no Vote row for the pair and the second response carries \<open>voteType: null\<close>,
  provided the pair starts with at most one row (the uniqueness invariant) and with no row
  of that vote type. The two requests may differ in their petition fields.
\<close>

theorem repeat_vote_cancels:
  assumes "valid_vote_request s r1"
    and "proposalId r2 = proposalId r1" and "userId r2 = userId r1"
    and "voteType r2 = voteType r1"
    and "unique_votes s"
    and "\<forall>v \<in> set (votes_of s (proposalId r1) (userId r1)). vote_type v \<noteq> voteType r1"
  shows "votes_of (db (createOrUpdateVote t2 (db (createOrUpdateVote t1 s r1)) r2))
           (proposalId r1) (userId r1) = []
       \<and> field (response (createOrUpdateVote t2 (db (createOrUpdateVote t1 s r1)) r2))
           ''voteType'' = Some JNull"
proof -
  let ?s1 = "db (createOrUpdateVote t1 s r1)"
  have "valid_vote_request s r2"
    using assms(1-4) by (simp add: valid_vote_request_def)
  then have v2: "valid_vote_request ?s1 r2"
    by (simp add: valid_vote_request_after)
  have u1: "unique_votes ?s1"
    using assms(5) by (rule unique_votes_preserved)
  obtain x where x: "votes_of ?s1 (proposalId r2) (userId r2) = [x]" "vote_type x = voteType r2"
    using votes_of_after_cast [OF assms(1,5,6), of t1] assms(2-4) by auto
  have "votes_of (db (createOrUpdateVote t2 ?s1 r2)) (proposalId r2) (userId r2) = []"
    using x by (simp add: votes_of_createOrUpdateVote [OF v2 u1])
  moreover have "existingVote ?s1 (proposalId r2) (userId r2) = Some x"
    using x by (simp add: existingVote_votes_of)
  then have "field (response (createOrUpdateVote t2 ?s1 r2)) ''voteType'' = Some JNull"
    using x by (simp add: createOrUpdateVote_valid [OF v2] field_def createResponse_def)
  ultimately show ?thesis
    using assms(2,3) by simp
qed

theorem repeat_vote_cancels_witness:
  "valid_vote_request demo_store (cast ''p1'' ''u1'' ''downvote'')
   \<and> unique_votes demo_store
   \<and> map vote_type (votes_of demo_store ''p1'' ''u1'') = [''upvote'']
   \<and> votes_of (db (createOrUpdateVote 4000
           (db (createOrUpdateVote 3000 demo_store (cast ''p1'' ''u1'' ''downvote'')))
           (cast ''p1'' ''u1'' ''downvote''))) ''p1'' ''u1'' = []
   \<and> field (response (createOrUpdateVote 4000
           (db (createOrUpdateVote 3000 demo_store (cast ''p1'' ''u1'' ''downvote'')))
           (cast ''p1'' ''u1'' ''downvote''))) ''voteType'' = Some JNull"
proof -
  let ?r = "cast ''p1'' ''u1'' ''downvote''"
  have h1: "valid_vote_request demo_store ?r"
    by (simp add: valid_vote_request_def cast_def demo_store_def user_exists_def
        proposal_exists_def)
  have h2: "unique_votes demo_store"
    by (simp add: unique_votes_def demo_store_def vote_key_def)
  have h3: "\<forall>v \<in> set (votes_of demo_store (proposalId ?r) (userId ?r)). vote_type v \<noteq> voteType ?r"
    by (simp add: votes_of_def demo_store_def cast_def)
  have "votes_of (db (createOrUpdateVote 4000 (db (createOrUpdateVote 3000 demo_store ?r)) ?r))
           (proposalId ?r) (userId ?r) = []
       \<and> field (response (createOrUpdateVote 4000 (db (createOrUpdateVote 3000 demo_store ?r)) ?r))
           ''voteType'' = Some JNull"
    by (rule repeat_vote_cancels [OF h1 refl refl refl h2 h3])
  moreover have "map vote_type (votes_of demo_store ''p1'' ''u1'') = [''upvote'']"
    by (simp add: votes_of_def demo_store_def)
  ultimately show ?thesis
    using h1 h2 by (simp add: cast_def)
qed

text \<open>
  C1 as stated (from any state) fails: in \<open>demo_store\<close> user \<open>u1\<close> already holds an upvote
  on \<open>p1\<close>; the first upvote removes it and the second one creates it again. And in
  \<open>duplicate_store\<close>, where the pair holds two downvote rows, two upvotes turn the first row
  and remove it, and the second row stays.
\<close>

theorem repeat_vote_counterexample:
  "user_exists demo_store ''u1'' \<and> proposal_exists demo_store ''p1''
   \<and> votes_of (db (createOrUpdateVote 4000
          (db (createOrUpdateVote 3000 demo_store (cast ''p1'' ''u1'' ''upvote'')))
          (cast ''p1'' ''u1'' ''upvote''))) ''p1'' ''u1''
      = [\<lparr>vote_id = 3, vote_proposal_id = ''p1'', vote_user_id = ''u1'', vote_type = ''upvote'',
          vote_timestamp = 4000, is_petition = False\<rparr>]
   \<and> field (response (createOrUpdateVote 4000
          (db (createOrUpdateVote 3000 demo_store (cast ''p1'' ''u1'' ''upvote'')))
          (cast ''p1'' ''u1'' ''upvote''))) ''voteType'' = Some (JStr ''upvote'')
   \<and> map vote_type (votes_of duplicate_store ''p1'' ''u1'') = [''downvote'', ''downvote'']
   \<and> map vote_id (votes_of (db (createOrUpdateVote 4000
          (db (createOrUpdateVote 3000 duplicate_store (cast ''p1'' ''u1'' ''upvote'')))
          (cast ''p1'' ''u1'' ''upvote''))) ''p1'' ''u1'') = [2]"
  by (simp add: demo_store_def duplicate_store_def cast_def user_exists_def proposal_exists_def
      votes_of_def createOrUpdateVote_def Let_def first_where_def existingVote_def
      finishVote_def voteSuccess_def next_rowid_def createResponse_def field_def)

text \<open>
  C2, as amended. Casting one vote type and then the other, on a proposal and user that exist
  and from a state that satisfies the uniqueness invariant, leaves exactly one Vote row for
  the pair, with the second call's vote type and timestamp. If the pair held no row of the
  first call's type, that row is the row \<open>x\<close> the pair holds after the first call, updated in
  place (same id), and the second call ran the update branch (it logs \<open>Updated vote\<close>). If
  the pair held a row of the first call's type, the first call removed it and the second
  call ran the create branch: the row is a new one.
\<close>

theorem switch_vote_updates:
  assumes "valid_vote_request s r1" and "valid_vote_request s r2"
    and "proposalId r2 = proposalId r1" and "userId r2 = userId r1"
    and "voteType r2 \<noteq> voteType r1"
    and "unique_votes s"
  shows "(\<exists>y. votes_of (db (createOrUpdateVote t2 (db (createOrUpdateVote t1 s r1)) r2))
                (proposalId r1) (userId r1) = [y]
            \<and> vote_type y = voteType r2 \<and> vote_timestamp y = t2)
       \<and> ((\<forall>v \<in> set (votes_of s (proposalId r1) (userId r1)). vote_type v \<noteq> voteType r1) \<longrightarrow>
           (\<exists>x. votes_of (db (createOrUpdateVote t1 s r1)) (proposalId r1) (userId r1) = [x]
              \<and> votes_of (db (createOrUpdateVote t2 (db (createOrUpdateVote t1 s r1)) r2))
                   (proposalId r1) (userId r1)
                 = [x\<lparr>vote_type := voteType r2, vote_timestamp := t2,
                       is_petition := (voteType r2 = ''upvote'' \<and> isPetition r2)\<rparr>]
              \<and> hd (logged (createOrUpdateVote t2 (db (createOrUpdateVote t1 s r1)) r2))
                 = UpdatedVote (vote_id x) (voteType r2)))
       \<and> ((\<exists>v \<in> set (votes_of s (proposalId r1) (userId r1)). vote_type v = voteType r1) \<longrightarrow>
           votes_of (db (createOrUpdateVote t1 s r1)) (proposalId r1) (userId r1) = []
           \<and> votes_of (db (createOrUpdateVote t2 (db (createOrUpdateVote t1 s r1)) r2))
                (proposalId r1) (userId r1)
              = [\<lparr>vote_id = next_rowid (votes (db (createOrUpdateVote t1 s r1))),
                  vote_proposal_id = proposalId r1, vote_user_id = userId r1,
                  vote_type = voteType r2, vote_timestamp = t2,
                  is_petition = (voteType r2 = ''upvote'' \<and> isPetition r2)\<rparr>]
           \<and> hd (logged (createOrUpdateVote t2 (db (createOrUpdateVote t1 s r1)) r2))
              = CreatedVote (next_rowid (votes (db (createOrUpdateVote t1 s r1)))))"
proof -
  let ?s1 = "db (createOrUpdateVote t1 s r1)"
  let ?o2 = "createOrUpdateVote t2 ?s1 r2"
  let ?pid = "proposalId r1" and ?uid = "userId r1"
  have v2: "valid_vote_request ?s1 r2"
    using assms(2) by (simp add: valid_vote_request_after)
  have u1: "unique_votes ?s1"
    using assms(6) by (rule unique_votes_preserved)
  have ids: "proposalId r2 = ?pid" "userId r2 = ?uid"
    using assms(3,4) by simp_all
  have upd: "\<exists>x. votes_of ?s1 ?pid ?uid = [x]
              \<and> votes_of (db ?o2) ?pid ?uid
                 = [x\<lparr>vote_type := voteType r2, vote_timestamp := t2,
                       is_petition := (voteType r2 = ''upvote'' \<and> isPetition r2)\<rparr>]
              \<and> hd (logged ?o2) = UpdatedVote (vote_id x) (voteType r2)"
    if none: "\<forall>v \<in> set (votes_of s ?pid ?uid). vote_type v \<noteq> voteType r1"
  proof -
    obtain x where x: "votes_of ?s1 ?pid ?uid = [x]" "vote_type x = voteType r1"
      using votes_of_after_cast [OF assms(1,6) none, of t1] by auto
    have x2: "votes_of ?s1 (proposalId r2) (userId r2) = [x]"
      using x ids by simp
    have ne: "vote_type x \<noteq> voteType r2"
      using x assms(5) by simp
    have after: "votes_of (db ?o2) (proposalId r2) (userId r2)
        = [x\<lparr>vote_type := voteType r2, vote_timestamp := t2,
              is_petition := (voteType r2 = ''upvote'' \<and> isPetition r2)\<rparr>]"
      using x2 ne by (simp add: votes_of_createOrUpdateVote [OF v2 u1])
    have ex: "existingVote ?s1 (proposalId r2) (userId r2) = Some x"
      using x2 by (simp add: existingVote_votes_of)
    have "hd (logged ?o2) = UpdatedVote (vote_id x) (voteType r2)"
      using ex ne by (simp add: createOrUpdateVote_valid [OF v2] hd_logged_finishVote)
    with x after ids show ?thesis
      by auto
  qed
  have cre: "votes_of ?s1 ?pid ?uid = []
           \<and> votes_of (db ?o2) ?pid ?uid
              = [\<lparr>vote_id = next_rowid (votes ?s1),
                  vote_proposal_id = ?pid, vote_user_id = ?uid,
                  vote_type = voteType r2, vote_timestamp = t2,
                  is_petition = (voteType r2 = ''upvote'' \<and> isPetition r2)\<rparr>]
           \<and> hd (logged ?o2) = CreatedVote (next_rowid (votes ?s1))"
    if some: "\<exists>v \<in> set (votes_of s ?pid ?uid). vote_type v = voteType r1"
  proof -
    from some obtain ev rest where ev: "votes_of s ?pid ?uid = ev # rest"
      by (cases "votes_of s ?pid ?uid") auto
    with unique_votes_le1 [OF assms(6), of ?pid ?uid] have one: "votes_of s ?pid ?uid = [ev]"
      by simp
    with some have ty: "vote_type ev = voteType r1"
      by simp
    have gone: "votes_of ?s1 ?pid ?uid = []"
      using one ty by (simp add: votes_of_createOrUpdateVote [OF assms(1,6)])
    then have gone2: "votes_of ?s1 (proposalId r2) (userId r2) = []"
      using ids by simp
    have after: "votes_of (db ?o2) (proposalId r2) (userId r2)
        = [\<lparr>vote_id = next_rowid (votes ?s1),
            vote_proposal_id = proposalId r2, vote_user_id = userId r2,
            vote_type = voteType r2, vote_timestamp = t2,
            is_petition = (voteType r2 = ''upvote'' \<and> isPetition r2)\<rparr>]"
      using gone2 by (simp add: votes_of_createOrUpdateVote [OF v2 u1])
    have ex: "existingVote ?s1 (proposalId r2) (userId r2) = None"
      using gone2 by (simp add: existingVote_votes_of)
    have "hd (logged ?o2) = CreatedVote (next_rowid (votes ?s1))"
      using ex by (simp add: createOrUpdateVote_valid [OF v2] hd_logged_finishVote)
    with gone after ids show ?thesis
      by simp
  qed
  have "\<exists>y. votes_of (db ?o2) ?pid ?uid = [y] \<and> vote_type y = voteType r2 \<and> vote_timestamp y = t2"
  proof (cases "\<forall>v \<in> set (votes_of s ?pid ?uid). vote_type v \<noteq> voteType r1")
    case True
    from upd [OF True] show ?thesis by auto
  next
    case False
    then have "\<exists>v \<in> set (votes_of s ?pid ?uid). vote_type v = voteType r1" by simp
    from cre [OF this] show ?thesis by simp
  qed
  with upd cre show ?thesis
    by blast
qed

theorem switch_vote_updates_witness:
  "valid_vote_request demo_store (cast ''p1'' ''u2'' ''upvote'')
   \<and> valid_vote_request demo_store (cast ''p1'' ''u2'' ''downvote'')
   \<and> unique_votes demo_store
   \<and> map vote_type (votes_of demo_store ''p1'' ''u2'') = [''downvote'']
   \<and> (\<exists>x. votes_of (db (createOrUpdateVote 3000 demo_store (cast ''p1'' ''u2'' ''upvote'')))
              ''p1'' ''u2'' = [x]
         \<and> votes_of (db (createOrUpdateVote 4000
              (db (createOrUpdateVote 3000 demo_store (cast ''p1'' ''u2'' ''upvote'')))
              (cast ''p1'' ''u2'' ''downvote''))) ''p1'' ''u2''
            = [x\<lparr>vote_type := ''downvote'', vote_timestamp := 4000, is_petition := False\<rparr>]
         \<and> hd (logged (createOrUpdateVote 4000
              (db (createOrUpdateVote 3000 demo_store (cast ''p1'' ''u2'' ''upvote'')))
              (cast ''p1'' ''u2'' ''downvote''))) = UpdatedVote (vote_id x) ''downvote'')
   \<and> map vote_type (votes_of demo_store ''p1'' ''u1'') = [''upvote'']
   \<and> votes_of (db (createOrUpdateVote 3000 demo_store (cast ''p1'' ''u1'' ''upvote'')))
         ''p1'' ''u1'' = []
   \<and> (\<exists>y. votes_of (db (createOrUpdateVote 4000
              (db (createOrUpdateVote 3000 demo_store (cast ''p1'' ''u1'' ''upvote'')))
              (cast ''p1'' ''u1'' ''downvote''))) ''p1'' ''u1'' = [y]
         \<and> vote_type y = ''downvote'' \<and> vote_timestamp y = 4000)
   \<and> hd (logged (createOrUpdateVote 4000
         (db (createOrUpdateVote 3000 demo_store (cast ''p1'' ''u1'' ''upvote'')))
         (cast ''p1'' ''u1'' ''downvote'')))
      = CreatedVote (next_rowid (votes (db (createOrUpdateVote 3000 demo_store
          (cast ''p1'' ''u1'' ''upvote'')))))"
proof -
  let ?r1 = "cast ''p1'' ''u2'' ''upvote''" and ?r2 = "cast ''p1'' ''u2'' ''downvote''"
  let ?q1 = "cast ''p1'' ''u1'' ''upvote''" and ?q2 = "cast ''p1'' ''u1'' ''downvote''"
  have h1: "valid_vote_request demo_store ?r1" and h2: "valid_vote_request demo_store ?r2"
    and g1: "valid_vote_request demo_store ?q1" and g2: "valid_vote_request demo_store ?q2"
    by (simp_all add: valid_vote_request_def cast_def demo_store_def user_exists_def
        proposal_exists_def)
  have h3: "proposalId ?r2 = proposalId ?r1" and h4: "userId ?r2 = userId ?r1"
    and h5: "voteType ?r2 \<noteq> voteType ?r1"
    and g3: "proposalId ?q2 = proposalId ?q1" and g4: "userId ?q2 = userId ?q1"
    and g5: "voteType ?q2 \<noteq> voteType ?q1"
    by (simp_all add: cast_def)
  have h6: "unique_votes demo_store"
    by (simp add: unique_votes_def demo_store_def vote_key_def)
  have h7: "\<forall>v \<in> set (votes_of demo_store (proposalId ?r1) (userId ?r1)). vote_type v \<noteq> voteType ?r1"
    by (simp add: votes_of_def demo_store_def cast_def)
  have g7: "\<exists>v \<in> set (votes_of demo_store (proposalId ?q1) (userId ?q1)). vote_type v = voteType ?q1"
    by (simp add: votes_of_def demo_store_def cast_def)
  have h8: "map vote_type (votes_of demo_store ''p1'' ''u2'') = [''downvote'']"
    and g8: "map vote_type (votes_of demo_store ''p1'' ''u1'') = [''upvote'']"
    by (simp_all add: votes_of_def demo_store_def)
  from switch_vote_updates [OF h1 h2 h3 h4 h5 h6, of 4000 3000] h7
  have c1: "\<exists>x. votes_of (db (createOrUpdateVote 3000 demo_store ?r1))
                (proposalId ?r1) (userId ?r1) = [x]
         \<and> votes_of (db (createOrUpdateVote 4000 (db (createOrUpdateVote 3000 demo_store ?r1)) ?r2))
              (proposalId ?r1) (userId ?r1)
            = [x\<lparr>vote_type := voteType ?r2, vote_timestamp := 4000,
                  is_petition := (voteType ?r2 = ''upvote'' \<and> isPetition ?r2)\<rparr>]
         \<and> hd (logged (createOrUpdateVote 4000 (db (createOrUpdateVote 3000 demo_store ?r1)) ?r2))
            = UpdatedVote (vote_id x) (voteType ?r2)"
    by blast
  from switch_vote_updates [OF g1 g2 g3 g4 g5 h6, of 4000 3000] g7
  have c2: "votes_of (db (createOrUpdateVote 3000 demo_store ?q1))
                (proposalId ?q1) (userId ?q1) = []
         \<and> (\<exists>y. votes_of (db (createOrUpdateVote 4000 (db (createOrUpdateVote 3000 demo_store ?q1)) ?q2))
                (proposalId ?q1) (userId ?q1) = [y]
              \<and> vote_type y = voteType ?q2 \<and> vote_timestamp y = 4000)
         \<and> hd (logged (createOrUpdateVote 4000 (db (createOrUpdateVote 3000 demo_store ?q1)) ?q2))
            = CreatedVote (next_rowid (votes (db (createOrUpdateVote 3000 demo_store ?q1))))"
    by blast
  from c1 c2 h1 h2 h6 h8 g8 show ?thesis
    by (simp add: cast_def)
qed

text \<open>
  C2 as stated fails when the pair already holds a vote of the first type: in \<open>demo_store\<close>
  user \<open>u1\<close> holds an upvote (row 1) on \<open>p1\<close>; upvote removes it, and downvote then runs the
  create branch and inserts a new row (row 3) instead of updating one in place. And in
  \<open>duplicate_store\<close>, where the pair holds two rows, two rows remain.
\<close>

theorem switch_vote_counterexample:
  "user_exists demo_store ''u1'' \<and> proposal_exists demo_store ''p1''
   \<and> votes_of demo_store ''p1'' ''u1''
      = [\<lparr>vote_id = 1, vote_proposal_id = ''p1'', vote_user_id = ''u1'', vote_type = ''upvote'',
          vote_timestamp = 2000, is_petition = False\<rparr>]
   \<and> votes_of (db (createOrUpdateVote 3000 demo_store (cast ''p1'' ''u1'' ''upvote''))) ''p1'' ''u1''
      = []
   \<and> logged (createOrUpdateVote 4000
          (db (createOrUpdateVote 3000 demo_store (cast ''p1'' ''u1'' ''upvote'')))
          (cast ''p1'' ''u1'' ''downvote'')) = [CreatedVote 3]
   \<and> votes_of (db (createOrUpdateVote 4000
          (db (createOrUpdateVote 3000 demo_store (cast ''p1'' ''u1'' ''upvote'')))
          (cast ''p1'' ''u1'' ''downvote''))) ''p1'' ''u1''
      = [\<lparr>vote_id = 3, vote_proposal_id = ''p1'', vote_user_id = ''u1'', vote_type = ''downvote'',
          vote_timestamp = 4000, is_petition = False\<rparr>]
   \<and> map vote_id (votes_of (db (createOrUpdateVote 4000
          (db (createOrUpdateVote 3000 duplicate_store (cast ''p1'' ''u1'' ''upvote'')))
          (cast ''p1'' ''u1'' ''downvote''))) ''p1'' ''u1'') = [1, 2]"
  by (simp add: demo_store_def duplicate_store_def cast_def user_exists_def proposal_exists_def
      votes_of_def createOrUpdateVote_def Let_def first_where_def existingVote_def
      finishVote_def voteSuccess_def next_rowid_def createResponse_def)

text \<open>
  C3. Every sequential execution of store operations from a state that satisfies the
  uniqueness invariant ends in a state that satisfies it: \<open>createOrUpdateVote\<close> (the vote
  mutation and the petition-detail upsert inside it) and \<open>createOrUpdateCommentVote\<close>, for
  every request, valid or not.
\<close>

theorem invariant_preserved:
  assumes "store_invariant s"
  shows "store_invariant (run_ops s ops)"
  using assms
proof (induction ops arbitrary: s)
  case Nil
  then show ?case by simp
next
  case (Cons operation ops)
  have "store_invariant (apply_op s operation)"
    using Cons.prems invariant_step by (cases operation) simp_all
  then show ?case
    using Cons.IH by simp
qed

theorem invariant_preserved_witness:
  "store_invariant demo_store
   \<and> store_invariant (run_ops demo_store
        [CastVote 3000 (sign ''p1'' ''u2'' full_payload),
         CastCommentVote 3100 ''comment_vote_3100_ab12c''
           \<lparr>cv_commentId = ''c1'', cv_userId = ''u1'', cv_voteType = ''upvote''\<rparr>,
         CastVote 3200 (cast ''p1'' ''u1'' ''upvote'')])"
proof -
  have h: "store_invariant demo_store"
    by (simp add: store_invariant_def unique_votes_def unique_comment_votes_def
        unique_petition_details_def demo_store_def vote_key_def)
  from h show ?thesis
    by (intro conjI invariant_preserved)
qed

text \<open>
  C4. An upvote flagged as a petition whose details lack one of the five required sub-fields,
  on a proposal and user that exist and a pair holding no upvote: the response is the 400
  error, the Vote row has been inserted or updated (an upvote row for the pair with this
  call's timestamp and the petition flag is in the store), and no petition details are stored.
\<close>

theorem petition_rejected_vote_kept:
  assumes "valid_vote_request s req"
    and "voteType req = ''upvote''" and "isPetition req"
    and "petitionDetails req = Some d"
    and "fullName d = [] \<or> pAddress d = [] \<or> pPostcode d = [] \<or> pDob d = [] \<or> pEmail d = []"
    and "\<forall>v \<in> set (votes_of s (proposalId req) (userId req)). vote_type v \<noteq> ''upvote''"
  shows "status (response (createOrUpdateVote now s req)) = 400
       \<and> field (response (createOrUpdateVote now s req)) ''error''
           = Some (JStr ''Missing required petition details'')
       \<and> (\<exists>v \<in> set (votes_of (db (createOrUpdateVote now s req)) (proposalId req) (userId req)).
             vote_type v = ''upvote'' \<and> vote_timestamp v = now \<and> is_petition v)
       \<and> petition_details (db (createOrUpdateVote now s req)) = petition_details s"
proof (cases "existingVote s (proposalId req) (userId req)")
  case None
  then show ?thesis
    using assms(2-5)
    by (simp add: createOrUpdateVote_valid [OF assms(1)] finishVote_def processPetition_def
        createResponse_def field_def votes_of_def)
next
  case (Some ev)
  then have ev: "ev \<in> set (votes s)" "vote_proposal_id ev = proposalId req"
      "vote_user_id ev = userId req"
    by (auto simp: existingVote_def dest: first_where_SomeD)
  then have ne: "vote_type ev \<noteq> ''upvote''"
    using assms(6) by (simp add: votes_of_def)
  have "ev\<lparr>vote_type := ''upvote'', vote_timestamp := now, is_petition := True\<rparr>
        \<in> (\<lambda>v. if vote_id v = vote_id ev
                 then v\<lparr>vote_type := ''upvote'', vote_timestamp := now, is_petition := True\<rparr>
                 else v) ` set (votes s)"
    using ev(1) by (rule rev_image_eqI) simp
  then show ?thesis
    using assms(2-5) Some ne ev
    by (auto simp: createOrUpdateVote_valid [OF assms(1)] finishVote_def processPetition_def
        createResponse_def field_def votes_of_def)
qed

theorem petition_rejected_vote_kept_witness:
  "valid_vote_request demo_store
     (sign ''p1'' ''u2'' (full_payload\<lparr>pEmail := []\<rparr>))
   \<and> map vote_type (votes_of demo_store ''p1'' ''u2'') = [''downvote'']
   \<and> status (response (createOrUpdateVote 3000 demo_store
        (sign ''p1'' ''u2'' (full_payload\<lparr>pEmail := []\<rparr>)))) = 400
   \<and> (\<exists>v \<in> set (votes_of (db (createOrUpdateVote 3000 demo_store
          (sign ''p1'' ''u2'' (full_payload\<lparr>pEmail := []\<rparr>)))) ''p1'' ''u2'').
         vote_type v = ''upvote'' \<and> vote_timestamp v = 3000 \<and> is_petition v)
   \<and> petition_details (db (createOrUpdateVote 3000 demo_store
        (sign ''p1'' ''u2'' (full_payload\<lparr>pEmail := []\<rparr>)))) = []"
proof -
  let ?r = "sign ''p1'' ''u2'' (full_payload\<lparr>pEmail := []\<rparr>)"
  have h1: "valid_vote_request demo_store ?r"
    by (simp add: valid_vote_request_def sign_def demo_store_def user_exists_def
        proposal_exists_def)
  have h2: "voteType ?r = ''upvote''" and h3: "isPetition ?r"
    and h4: "petitionDetails ?r = Some (full_payload\<lparr>pEmail := []\<rparr>)"
    by (simp_all add: sign_def)
  have h5: "fullName (full_payload\<lparr>pEmail := []\<rparr>) = [] \<or> pAddress (full_payload\<lparr>pEmail := []\<rparr>) = []
      \<or> pPostcode (full_payload\<lparr>pEmail := []\<rparr>) = [] \<or> pDob (full_payload\<lparr>pEmail := []\<rparr>) = []
      \<or> pEmail (full_payload\<lparr>pEmail := []\<rparr>) = []"
    by simp
  have h6: "\<forall>v \<in> set (votes_of demo_store (proposalId ?r) (userId ?r)). vote_type v \<noteq> ''upvote''"
    by (simp add: votes_of_def demo_store_def sign_def)
  have h7: "map vote_type (votes_of demo_store ''p1'' ''u2'') = [''downvote'']"
    by (simp add: votes_of_def demo_store_def)
  from petition_rejected_vote_kept [OF h1 h2 h3 h4 h5 h6, of 3000] h1 h7
  show ?thesis
    by (simp add: sign_def demo_store_def)
qed

text \<open>
  C10, as amended. On a store that satisfies the uniqueness invariant, when a Vote row of
  the pair has the requested vote type, the call deletes it and returns at once: no row of
  the pair is left, \<open>petition_details\<close> is unchanged whatever \<open>isPetition\<close> and
  \<open>petitionDetails\<close> are, and the response is the 200 with \<open>voteType: null\<close>. On any store the
  same holds whenever the row the handler's lookup returns for the pair has the requested
  type: the rows with that row's id, and no others, are removed.
\<close>

theorem toggle_off_leaves_petition_details:
  assumes "valid_vote_request s req"
  shows "(unique_votes s
          \<and> (\<exists>v \<in> set (votes_of s (proposalId req) (userId req)). vote_type v = voteType req) \<longrightarrow>
            petition_details (db (createOrUpdateVote now s req)) = petition_details s
            \<and> votes_of (db (createOrUpdateVote now s req)) (proposalId req) (userId req) = []
            \<and> (\<exists>ev. existingVote s (proposalId req) (userId req) = Some ev
                  \<and> logged (createOrUpdateVote now s req) = [DeletedVote (vote_id ev)])
            \<and> status (response (createOrUpdateVote now s req)) = 200
            \<and> field (response (createOrUpdateVote now s req)) ''voteType'' = Some JNull)
       \<and> (\<forall>ev. existingVote s (proposalId req) (userId req) = Some ev
               \<and> vote_type ev = voteType req \<longrightarrow>
            petition_details (db (createOrUpdateVote now s req)) = petition_details s
            \<and> votes (db (createOrUpdateVote now s req))
                = filter (\<lambda>v. vote_id v \<noteq> vote_id ev) (votes s)
            \<and> logged (createOrUpdateVote now s req) = [DeletedVote (vote_id ev)]
            \<and> status (response (createOrUpdateVote now s req)) = 200
            \<and> field (response (createOrUpdateVote now s req)) ''voteType'' = Some JNull)"
proof (intro conjI impI allI)
  fix ev
  assume "existingVote s (proposalId req) (userId req) = Some ev \<and> vote_type ev = voteType req"
  then have e: "existingVote s (proposalId req) (userId req) = Some ev" "vote_type ev = voteType req"
    by simp_all
  show "petition_details (db (createOrUpdateVote now s req)) = petition_details s"
    and "votes (db (createOrUpdateVote now s req)) = filter (\<lambda>v. vote_id v \<noteq> vote_id ev) (votes s)"
    and "logged (createOrUpdateVote now s req) = [DeletedVote (vote_id ev)]"
    and "status (response (createOrUpdateVote now s req)) = 200"
    and "field (response (createOrUpdateVote now s req)) ''voteType'' = Some JNull"
    using e by (simp_all add: createOrUpdateVote_valid [OF assms] field_def createResponse_def)
next
  assume a: "unique_votes s
          \<and> (\<exists>v \<in> set (votes_of s (proposalId req) (userId req)). vote_type v = voteType req)"
  then obtain ev rest where "votes_of s (proposalId req) (userId req) = ev # rest"
    by (cases "votes_of s (proposalId req) (userId req)") auto
  with unique_votes_le1 [of s "proposalId req" "userId req"] a
  have one: "votes_of s (proposalId req) (userId req) = [ev]"
    by simp
  with a have ty: "vote_type ev = voteType req"
    by simp
  have e: "existingVote s (proposalId req) (userId req) = Some ev"
    using one by (simp add: existingVote_votes_of)
  show "petition_details (db (createOrUpdateVote now s req)) = petition_details s"
    and "status (response (createOrUpdateVote now s req)) = 200"
    and "field (response (createOrUpdateVote now s req)) ''voteType'' = Some JNull"
    using e ty by (simp_all add: createOrUpdateVote_valid [OF assms] field_def createResponse_def)
  show "votes_of (db (createOrUpdateVote now s req)) (proposalId req) (userId req) = []"
    using one ty a by (simp add: votes_of_createOrUpdateVote [OF assms])
  show "\<exists>ev. existingVote s (proposalId req) (userId req) = Some ev
                  \<and> logged (createOrUpdateVote now s req) = [DeletedVote (vote_id ev)]"
    using e ty by (simp add: createOrUpdateVote_valid [OF assms])
qed

theorem toggle_off_leaves_petition_details_witness:
  "valid_vote_request demo_store (sign ''p1'' ''u1'' full_payload)
   \<and> unique_votes demo_store
   \<and> map vote_type (votes_of demo_store ''p1'' ''u1'') = [''upvote'']
   \<and> existingVote demo_store ''p1'' ''u1'' = Some (hd (votes demo_store))
   \<and> petition_details (db (createOrUpdateVote 3000 demo_store (sign ''p1'' ''u1'' full_payload)))
       = petition_details demo_store
   \<and> votes_of (db (createOrUpdateVote 3000 demo_store (sign ''p1'' ''u1'' full_payload)))
       ''p1'' ''u1'' = []
   \<and> logged (createOrUpdateVote 3000 demo_store (sign ''p1'' ''u1'' full_payload))
       = [DeletedVote (vote_id (hd (votes demo_store)))]
   \<and> field (response (createOrUpdateVote 3000 demo_store (sign ''p1'' ''u1'' full_payload)))
       ''voteType'' = Some JNull"
proof -
  let ?r = "sign ''p1'' ''u1'' full_payload"
  have h1: "valid_vote_request demo_store ?r"
    by (simp add: valid_vote_request_def sign_def demo_store_def user_exists_def
        proposal_exists_def)
  have h2: "unique_votes demo_store"
    by (simp add: unique_votes_def demo_store_def vote_key_def)
  have h3: "\<exists>v \<in> set (votes_of demo_store (proposalId ?r) (userId ?r)). vote_type v = voteType ?r"
    by (simp add: votes_of_def demo_store_def sign_def)
  have h4: "existingVote demo_store (proposalId ?r) (userId ?r) = Some (hd (votes demo_store))"
    by (simp add: existingVote_def first_where_def sign_def demo_store_def)
  have h5: "vote_type (hd (votes demo_store)) = voteType ?r"
    by (simp add: sign_def demo_store_def)
  have h6: "map vote_type (votes_of demo_store ''p1'' ''u1'') = [''upvote'']"
    by (simp add: votes_of_def demo_store_def)
  from toggle_off_leaves_petition_details [OF h1, of 3000] h2 h3
  have c1: "petition_details (db (createOrUpdateVote 3000 demo_store ?r)) = petition_details demo_store
      \<and> votes_of (db (createOrUpdateVote 3000 demo_store ?r)) (proposalId ?r) (userId ?r) = []
      \<and> field (response (createOrUpdateVote 3000 demo_store ?r)) ''voteType'' = Some JNull"
    by blast
  from toggle_off_leaves_petition_details [OF h1, of 3000] h4 h5
  have c2: "logged (createOrUpdateVote 3000 demo_store ?r)
      = [DeletedVote (vote_id (hd (votes demo_store)))]"
    by blast
  from c1 c2 h1 h2 h4 h6 show ?thesis
    by (simp add: sign_def)
qed

text \<open>
  C10 as stated fails on a store that holds two rows for the pair: in \<open>mixed_store\<close> user \<open>u1\<close>
  holds a downvote row and an upvote row on \<open>p1\<close>. The upvote row has the type of the
  petition upvote, but the lookup returns the downvote row: the call updates it, deletes
  nothing, stores the petition details and answers with \<open>voteType: "upvote"\<close>.
\<close>

theorem toggle_off_counterexample:
  "map vote_type (votes_of mixed_store ''p1'' ''u1'') = [''downvote'', ''upvote'']
   \<and> petition_details mixed_store = []
   \<and> map pd_user_id (petition_details (db (createOrUpdateVote 3000 mixed_store
        (sign ''p1'' ''u1'' full_payload)))) = [''u1'']
   \<and> map vote_id (votes_of (db (createOrUpdateVote 3000 mixed_store
        (sign ''p1'' ''u1'' full_payload))) ''p1'' ''u1'') = [1, 2]
   \<and> field (response (createOrUpdateVote 3000 mixed_store (sign ''p1'' ''u1'' full_payload)))
        ''voteType'' = Some (JStr ''upvote'')"
  by (simp add: demo_store_def mixed_store_def sign_def full_payload_def votes_of_def
      createOrUpdateVote_def Let_def first_where_def existingVote_def finishVote_def
      processPetition_def voteSuccess_def createResponse_def field_def)

section \<open>Claims about the listing, the renderer and the injector\<close>

text \<open>
  C5, as amended. With \<open>sortBy=popular\<close>, \<open>getProposals\<close> of \<open>worker.js\<close> orders the rows of the
  listing by upvotes descending, rows with equal upvotes newest first (the downvotes play no
  part), and returns the \<open>LIMIT\<close>/\<open>OFFSET\<close> page of that order the request asks for; when the
  limit or the offset is no 64-bit integer it answers the 500 instead. The variant of
  \<open>getProposals\<close> in the second source file returns all rows of the listing ordered by
  upvotes minus downvotes descending.
\<close>

theorem popular_orders_by_upvotes:
  "(\<exists>ordered.
      mset ordered = mset (listingQuery s)
      \<and> sorted_wrt (\<lambda>a b. lr_upvotes a > lr_upvotes b
                         \<or> (lr_upvotes a = lr_upvotes b \<and> lr_timestamp a \<ge> lr_timestamp b))
          ordered
      \<and> (if fitsInt64 (pageLimit limitParam) \<and> fitsInt64 (pageOffset pageParam limitParam)
         then \<exists>r. getProposals s pageParam limitParam (Some ''popular'') = Inr r
                \<and> data r = limitOffset (pageLimit limitParam) (pageOffset pageParam limitParam)
                             ordered
                \<and> sorted_wrt (\<lambda>a b. lr_upvotes a > lr_upvotes b
                         \<or> (lr_upvotes a = lr_upvotes b \<and> lr_timestamp a \<ge> lr_timestamp b))
                    (data r)
         else \<exists>e. getProposals s pageParam limitParam (Some ''popular'') = Inl e
                \<and> status e = 500))
   \<and> mset (map fst (getProposals_unpaged s (Some ''popular'') uid)) = mset (listingQuery s)
   \<and> sorted_wrt (\<lambda>a b. netVotesOf (fst a) \<ge> netVotesOf (fst b))
       (getProposals_unpaged s (Some ''popular'') uid)"
proof (intro conjI)
  let ?R = "\<lambda>a b. lr_upvotes a > lr_upvotes b
                  \<or> (lr_upvotes a = lr_upvotes b \<and> lr_timestamp a \<ge> lr_timestamp b)"
  let ?ordered = "sort_key (\<lambda>r. (- int (lr_upvotes r), - lr_timestamp r)) (listingQuery s)"
  have m: "mset ?ordered = mset (listingQuery s)"
    by simp
  have "sorted_wrt (\<lambda>a b. (- int (lr_upvotes a), - lr_timestamp a)
                          \<le> (- int (lr_upvotes b), - lr_timestamp b)) ?ordered"
    by (rule sorted_wrt_sort_key)
  then have so: "sorted_wrt ?R ?ordered"
    by (rule sorted_wrt_mono_rel [rotated]) (auto simp: less_eq_prod_def)
  then have sp: "sorted_wrt ?R
      (limitOffset (pageLimit limitParam) (pageOffset pageParam limitParam) ?ordered)"
    by (rule sorted_wrt_limitOffset)
  have "if fitsInt64 (pageLimit limitParam) \<and> fitsInt64 (pageOffset pageParam limitParam)
         then \<exists>r. getProposals s pageParam limitParam (Some ''popular'') = Inr r
                \<and> data r = limitOffset (pageLimit limitParam) (pageOffset pageParam limitParam)
                             ?ordered
                \<and> sorted_wrt ?R (data r)
         else \<exists>e. getProposals s pageParam limitParam (Some ''popular'') = Inl e
                \<and> status e = 500"
    using sp by (simp add: getProposals_def Let_def createResponse_def)
  with m so show "\<exists>ordered.
      mset ordered = mset (listingQuery s)
      \<and> sorted_wrt ?R ordered
      \<and> (if fitsInt64 (pageLimit limitParam) \<and> fitsInt64 (pageOffset pageParam limitParam)
         then \<exists>r. getProposals s pageParam limitParam (Some ''popular'') = Inr r
                \<and> data r = limitOffset (pageLimit limitParam) (pageOffset pageParam limitParam)
                             ordered
                \<and> sorted_wrt ?R (data r)
         else \<exists>e. getProposals s pageParam limitParam (Some ''popular'') = Inl e
                \<and> status e = 500)"
    by blast
next
  have "map fst (getProposals_unpaged s (Some ''popular'') uid)
      = sort_key (\<lambda>r. - netVotesOf r) (listingQuery s)"
    by (simp add: getProposals_unpaged_def Let_def comp_def)
  then show "mset (map fst (getProposals_unpaged s (Some ''popular'') uid))
      = mset (listingQuery s)"
    by simp
next
  have "sorted_wrt (\<lambda>a b. - netVotesOf a \<le> - netVotesOf b)
          (sort_key (\<lambda>r. - netVotesOf r) (listingQuery s))"
    by (rule sorted_wrt_sort_key)
  then have "sorted_wrt (\<lambda>a b. netVotesOf a \<ge> netVotesOf b)
          (sort_key (\<lambda>r. - netVotesOf r) (listingQuery s))"
    by simp
  then show "sorted_wrt (\<lambda>a b. netVotesOf (fst a) \<ge> netVotesOf (fst b))
     (getProposals_unpaged s (Some ''popular'') uid)"
    by (simp add: getProposals_unpaged_def Let_def sorted_wrt_map)
qed

theorem popular_orders_by_upvotes_witness:
  "pageLimit None = 20 \<and> pageOffset None None = 0
   \<and> map lr_id (data (projr (getProposals listing_store None None (Some ''popular''))))
       = [''pA'', ''pB'']
   \<and> map lr_id (listingQuery listing_store) = [''pA'', ''pB'']
   \<and> \<not> fitsInt64 (pageOffset (Some 100000000000000000000) None)
   \<and> map status (case getProposals listing_store (Some 100000000000000000000) None (Some ''popular'')
                   of Inl e \<Rightarrow> [e] | Inr r \<Rightarrow> []) = [500]
   \<and> map (lr_id \<circ> fst) (getProposals_unpaged listing_store (Some ''popular'') ''u2'')
       = [''pB'', ''pA'']"
proof -
  have l: "pageLimit None = 20" and o: "pageOffset None None = 0"
    by (simp_all add: pageLimit_def pageOffset_def parsedOr_def toDouble_small)
  have f: "fitsInt64 (pageLimit None) \<and> fitsInt64 (pageOffset None None)"
    by (simp add: l o fitsInt64_def)
  have q: "map lr_id (listingQuery listing_store) = [''pA'', ''pB'']"
    by (simp add: listingQuery_def listing_store_def listingRow_def)
  have big: "\<not> fitsInt64 (pageOffset (Some 100000000000000000000) None)"
    by (rule pageOffset_huge) simp
  from popular_orders_by_upvotes [of listing_store None None "''u2''"] f
  obtain ordered r where r: "mset ordered = mset (listingQuery listing_store)"
      "getProposals listing_store None None (Some ''popular'') = Inr r"
      "data r = limitOffset 20 0 ordered"
    by (auto simp: l o)
  have d: "map lr_id (data (projr (getProposals listing_store None None (Some ''popular''))))
       = [''pA'', ''pB'']"
    by (simp add: getProposals_def Let_def l o fitsInt64_def listingQuery_def listing_store_def
        listingRow_def countVotes_def limitOffset_def less_eq_prod_def)
  from popular_orders_by_upvotes [of listing_store None "Some 100000000000000000000" "''u2''"] big
  obtain e where "getProposals listing_store (Some 100000000000000000000) None (Some ''popular'') = Inl e"
      "status e = 500"
    by auto
  then have e: "map status (case getProposals listing_store (Some 100000000000000000000) None
                   (Some ''popular'') of Inl e \<Rightarrow> [e] | Inr r \<Rightarrow> []) = [500]"
    by simp
  have u: "map (lr_id \<circ> fst) (getProposals_unpaged listing_store (Some ''popular'') ''u2'')
       = [''pB'', ''pA'']"
    by (simp add: getProposals_unpaged_def Let_def listingQuery_def listing_store_def
        listingRow_def countVotes_def netVotesOf_def)
  from l o d q big e u show ?thesis
    by simp
qed

text \<open>
  C5 as stated fails on \<open>worker.js\<close>: in \<open>listing_store\<close> proposal \<open>pA\<close> has one upvote and two
  downvotes (net -1) and \<open>pB\<close> has no votes (net 0); \<open>pA\<close> is listed first.
\<close>

theorem popular_order_counterexample:
  "map (\<lambda>r. (lr_id r, lr_upvotes r, lr_downvotes r, netVotesOf r))
     (data (projr (getProposals listing_store None None (Some ''popular''))))
     = [(''pA'', 1, 2, - 1), (''pB'', 0, 0, 0)]
   \<and> \<not> sorted_wrt (\<lambda>a b. netVotesOf a \<ge> netVotesOf b)
         (data (projr (getProposals listing_store None None (Some ''popular''))))"
proof -
  have l: "pageLimit None = 20" and o: "pageOffset None None = 0"
    by (simp_all add: pageLimit_def pageOffset_def parsedOr_def toDouble_small)
  show ?thesis
    by (simp add: getProposals_def Let_def l o fitsInt64_def listingQuery_def listing_store_def
        listingRow_def countVotes_def limitOffset_def netVotesOf_def less_eq_prod_def)
qed



text \<open>
  C7, as amended. A text no longer than the per-line budget \<open>floor(width / 22)\<close> that has a
  character other than a space gives exactly one line, the text without its leading spaces;
  a text of spaces only (or empty) within the budget gives no line. A text whose wrapped
  form has more than 6 lines gives exactly 6 lines, the 6th being the 6th wrapped line
  without its last three characters followed by \<open>...\<close>.
\<close>

theorem textLines_one_or_six:
  "((\<exists>c \<in> set str. c \<noteq> CHR '' '') \<and> int (length str) \<le> width div 22 \<longrightarrow>
      limitedLines str width = [dropWhile (\<lambda>c. c = CHR '' '') str]
      \<and> generateSVGTextLines str x y width
          = svgTextElement x y (escapeHTML (dropWhile (\<lambda>c. c = CHR '' '') str)))
   \<and> (\<not> (\<exists>c \<in> set str. c \<noteq> CHR '' '') \<and> int (length str) \<le> width div 22 \<longrightarrow>
      limitedLines str width = [] \<and> generateSVGTextLines str x y width = [])
   \<and> (length (wrappedLines str width) > 6 \<longrightarrow>
      length (limitedLines str width) = 6
      \<and> limitedLines str width ! 5 = sliceDropLast 3 (wrappedLines str width ! 5) @ ''...''
      \<and> sliceLast 3 (limitedLines str width ! 5) = ''...'')"
proof (intro conjI impI)
  assume a: "(\<exists>c \<in> set str. c \<noteq> CHR '' '') \<and> int (length str) \<le> width div 22"
  then show one: "limitedLines str width = [dropWhile (\<lambda>c. c = CHR '' '') str]"
    by (simp add: limitedLines_def wrappedLines_fits dropWhile_space_nonempty Let_def)
  show "generateSVGTextLines str x y width
          = svgTextElement x y (escapeHTML (dropWhile (\<lambda>c. c = CHR '' '') str))"
    by (simp add: generateSVGTextLines_def one)
next
  assume a: "\<not> (\<exists>c \<in> set str. c \<noteq> CHR '' '') \<and> int (length str) \<le> width div 22"
  then show none: "limitedLines str width = []"
    by (simp add: limitedLines_def wrappedLines_fits dropWhile_space_nonempty Let_def)
  show "generateSVGTextLines str x y width = []"
    by (simp add: generateSVGTextLines_def none)
next
  assume a: "length (wrappedLines str width) > 6"
  then show "length (limitedLines str width) = 6"
    by (simp add: limitedLines_def Let_def)
  from a show six: "limitedLines str width ! 5
      = sliceDropLast 3 (wrappedLines str width ! 5) @ ''...''"
    by (simp add: limitedLines_def Let_def)
  show "sliceLast 3 (limitedLines str width ! 5) = ''...''"
    by (simp add: six sliceLast_def)
qed

theorem textLines_one_or_six_witness:
  "int (length ''Free parking'') \<le> 960 div 22
   \<and> limitedLines ''Free parking'' 960 = [''Free parking'']
   \<and> length (wrappedLines ''a b c d e f g'' 22) = 7
   \<and> length (limitedLines ''a b c d e f g'' 22) = 6
   \<and> sliceLast 3 (limitedLines ''a b c d e f g'' 22 ! 5) = ''...''"
proof -
  have h1: "(\<exists>c \<in> set ''Free parking''. c \<noteq> CHR '' '') \<and> int (length ''Free parking'') \<le> 960 div 22"
    by simp
  have h2: "length (wrappedLines ''a b c d e f g'' 22) = 7"
    by (simp add: wrappedLines_def Let_def)
  from textLines_one_or_six [of "''Free parking''" 960 120 220] h1
  have c1: "limitedLines ''Free parking'' 960 = [''Free parking'']"
    by simp
  from h2 have h2': "length (wrappedLines ''a b c d e f g'' 22) > 6"
    by simp
  from textLines_one_or_six [of "''a b c d e f g''" 22 120 220] h2'
  have c2: "length (limitedLines ''a b c d e f g'' 22) = 6
      \<and> sliceLast 3 (limitedLines ''a b c d e f g'' 22 ! 5) = ''...''"
    by blast
  from h1 h2 c1 c2 show ?thesis
    by simp
qed

text \<open>
  C7 as stated fails for a text of spaces only: the single space is within the budget of 43
  characters and gives no line at all.
\<close>

theorem single_space_counterexample:
  "int (length '' '') \<le> 960 div 22 \<and> limitedLines '' '' 960 = []
   \<and> generateSVGTextLines '' '' 120 220 960 = []"
  by (simp add: limitedLines_def wrappedLines_def generateSVGTextLines_def Let_def)

text \<open>
  C8, as amended. When the proposal is found (or the request is in test mode) and the
  document, after the image tags are removed, contains no \<open></head>\<close>, the injector returns
  that stripped document with the fetched response's headers and injects nothing.
\<close>

theorem no_head_returns_stripped:
  assumes "isTestMeta \<or> proposalForPage s pid \<noteq> None"
    and "\<not> (\<exists>pre post. stripImageTags html = pre @ ''</head>'' @ post)"
  shows "serveCustomizedHtml now s hostname isTestMeta pid html
       = \<lparr>page_body = stripImageTags html, page_headers = []\<rparr>"
proof -
  have "indexOf (stripImageTags html) ''</head>'' = - 1"
    using assms(2) by (simp add: indexOf_neg_iff)
  with assms(1) show ?thesis
    by (auto simp: serveCustomizedHtml_def Let_def split: option.splits)
qed

theorem no_head_returns_stripped_witness:
  "proposalForPage demo_store ''p1'' = Some ''Free parking''
   \<and> indexOf (stripImageTags page_no_head) ''</head>'' = - 1
   \<and> serveCustomizedHtml 5000 demo_store ''theradicalparty.com'' False ''p1'' page_no_head
       = \<lparr>page_body = ''<html><body>hi</body></html>'', page_headers = []\<rparr>"
proof -
  have h1: "proposalForPage demo_store ''p1'' = Some ''Free parking''"
    by (simp add: proposalForPage_def first_where_def demo_store_def)
  have st: "stripImageTags page_no_head = ''<html><body>hi</body></html>''"
    by code_simp
  have h2: "indexOf (stripImageTags page_no_head) ''</head>'' = - 1"
    unfolding st by code_simp
  then have h3: "\<not> (\<exists>pre post. stripImageTags page_no_head = pre @ ''</head>'' @ post)"
    by (simp add: indexOf_neg_iff)
  have h4: "False \<or> proposalForPage demo_store ''p1'' \<noteq> None"
    using h1 by simp
  from no_head_returns_stripped [OF h4 h3, of 5000 "''theradicalparty.com''"] h1 h2 st
  show ?thesis
    by simp
qed

text \<open>
  C8 as stated fails in two ways. \<open>page_split_head\<close> contains no \<open></head>\<close>, but removing its
  image tag leaves one, and the tags are injected before it. And when the proposal does not
  exist the fetched document is handed on as it is, image tag included.
\<close>

theorem no_head_counterexample:
  "indexOf page_split_head ''</head>'' = - 1
   \<and> stripImageTags page_split_head = ''</head>''
   \<and> page_body (serveCustomizedHtml 5000 demo_store ''theradicalparty.com'' True ''p1''
        page_split_head)
      = customMetaTags 5000 ''This is a test proposal for meta tags''
          ''https://theradicalparty.com/?proposal=p1''
          ''https://theradicalparty.com/api/petition-svg?id=test_proposal''
        @ ''</head>''
   \<and> page_body (serveCustomizedHtml 5000 demo_store ''theradicalparty.com'' True ''p1''
        page_split_head) \<noteq> stripImageTags page_split_head
   \<and> indexOf page_tag_only ''</head>'' = - 1
   \<and> stripImageTags page_tag_only = []
   \<and> proposalForPage demo_store ''p9'' = None
   \<and> page_body (serveCustomizedHtml 5000 demo_store ''theradicalparty.com'' False ''p9''
        page_tag_only) = page_tag_only"
proof -
  have i1: "indexOf page_split_head ''</head>'' = - 1"
    by code_simp
  have s1: "stripImageTags page_split_head = ''</head>''"
    by code_simp
  have i1': "indexOf ''</head>'' ''</head>'' = 0"
    by (simp add: indexOf_def)
  have b1: "page_body (serveCustomizedHtml 5000 demo_store ''theradicalparty.com'' True ''p1''
        page_split_head)
      = customMetaTags 5000 ''This is a test proposal for meta tags''
          ''https://theradicalparty.com/?proposal=p1''
          ''https://theradicalparty.com/api/petition-svg?id=test_proposal''
        @ ''</head>''"
    by (simp add: serveCustomizedHtml_def Let_def s1 i1')
  have ne: "customMetaTags 5000 ''This is a test proposal for meta tags''
          ''https://theradicalparty.com/?proposal=p1''
          ''https://theradicalparty.com/api/petition-svg?id=test_proposal'' \<noteq> []"
    by (simp add: customMetaTags_def nl_def)
  have i2: "indexOf page_tag_only ''</head>'' = - 1"
    by code_simp
  have s2: "stripImageTags page_tag_only = []"
    by code_simp
  have p9: "proposalForPage demo_store ''p9'' = None"
    by (simp add: proposalForPage_def first_where_def demo_store_def)
  have b2: "page_body (serveCustomizedHtml 5000 demo_store ''theradicalparty.com'' False ''p9''
        page_tag_only) = page_tag_only"
    by (simp add: serveCustomizedHtml_def p9)
  from i1 s1 b1 ne i2 s2 p9 b2 show ?thesis
    by simp
qed

text \<open>
  C9. The renderer is deterministic: for a proposal with its timestamp (present, not 0), the
  image does not depend on the current time, so two runs on the same input give the same
  text whatever the clock reads; the renderer reads no random source at all.
\<close>

theorem render_independent_of_clock:
  "sp_timestamp p \<noteq> 0 \<Longrightarrow> generatePetitionSVG f now p = generatePetitionSVG f now' p"
  by (simp add: generatePetitionSVG_def)

theorem render_independent_of_clock_witness:
  "sp_timestamp plain_proposal = 1700000000000
   \<and> generatePetitionSVG toLocaleDateString_UTC 0 plain_proposal
       = generatePetitionSVG toLocaleDateString_UTC 86400000 plain_proposal"
proof -
  have h: "sp_timestamp plain_proposal \<noteq> 0"
    by (simp add: plain_proposal_def)
  have "generatePetitionSVG toLocaleDateString_UTC 0 plain_proposal
       = generatePetitionSVG toLocaleDateString_UTC 86400000 plain_proposal"
    by (rule render_independent_of_clock [OF h])
  then show ?thesis
    by (simp add: plain_proposal_def)
qed

end
